theory Spec2Isabelle
  imports Complex_Main "HOL-Library.List_Lexorder" "HOL-Library.Char_ord"
begin

section \<open>Values of the Go program\<close>

text \<open>
  A Go \<^verbatim>\<open>error\<close> is modelled by its message (what \<^verbatim>\<open>err.Error()\<close> and the verb
  \<^verbatim>\<open>%v\<close> print): the handlers only ever format errors into text or compare the message.
  A \<^verbatim>\<open>plumbing.Hash\<close> is modelled by its hexadecimal rendering.
\<close>

type_synonym error = string
type_synonym hash = string

abbreviation nl :: char where
  "nl \<equiv> CHR 0x0A"

text \<open>
  The values found in \<^verbatim>\<open>map[string]interface{}\<close>: a JSON number arrives as
  \<^verbatim>\<open>float64\<close>. A \<^verbatim>\<open>float64\<close> is read as the real it denotes (JSON has no NaN and
  no infinity). The conversion \<^verbatim>\<open>int(val)\<close> truncates towards zero; where the truncated
  value does not fit the 64-bit \<^verbatim>\<open>int\<close>, Go leaves the result to the implementation,
  and the model takes that of the amd64 conversion instruction, the smallest \<^verbatim>\<open>int\<close>.
\<close>

datatype arg = Float64 real | GoInt int | GoString string | GoBool bool | GoNil

type_synonym arguments = "string \<rightharpoonup> arg"

definition truncFloat :: "real \<Rightarrow> int" where
  "truncFloat val = (if 0 \<le> val then \<lfloor>val\<rfloor> else \<lceil>val\<rceil>)"

definition int_of_float64 :: "real \<Rightarrow> int" where
  "int_of_float64 val =
     (if - 9223372036854775808 \<le> truncFloat val \<and> truncFloat val \<le> 9223372036854775807
      then truncFloat val
      else - 9223372036854775808)"

fun isNumber :: "arg \<Rightarrow> bool" where
  "isNumber (Float64 _) = True"
| "isNumber (GoInt _) = True"
| "isNumber _ = False"

text \<open>\<^verbatim>\<open>getNumber\<close> and \<^verbatim>\<open>getString\<close> (tool.go, the two type assertions in order).\<close>

definition getNumber :: "arguments \<Rightarrow> string \<Rightarrow> int" where
  "getNumber args key =
     (case args key of
        Some (Float64 val) \<Rightarrow> int_of_float64 val
      | Some (GoInt tmp) \<Rightarrow> tmp
      | _ \<Rightarrow> 0)"

definition getString :: "arguments \<Rightarrow> string \<Rightarrow> string" where
  "getString args key =
     (case args key of
        Some (GoString val) \<Rightarrow> val
      | _ \<Rightarrow> [])"

subsection \<open>Decimal rendering (\<^verbatim>\<open>%d\<close>, and the padded fields of \<^verbatim>\<open>time.Format\<close>)\<close>

definition digit :: "nat \<Rightarrow> char" where
  "digit n = ''0123456789'' ! n"

function digits :: "nat \<Rightarrow> string" where
  "digits n = (if n < 10 then [digit n] else digits (n div 10) @ [digit (n mod 10)])"
  by pat_completeness auto
termination
  by (relation "measure (\<lambda>n. n)") auto

declare digits.simps [simp del]

definition itoa :: "int \<Rightarrow> string" where
  "itoa i = (if i < 0 then ''-'' @ digits (nat (- i)) else digits (nat i))"

definition appendInt :: "int \<Rightarrow> nat \<Rightarrow> string" where
  "appendInt x width =
     (let ds = digits (nat \<bar>x\<bar>)
      in (if x < 0 then ''-'' else []) @ replicate (width - length ds) CHR ''0'' @ ds)"

subsection \<open>Time stamps and the two layouts the program formats\<close>

text \<open>
  A \<^verbatim>\<open>time.Time\<close> is modelled by the calendar fields that \<^verbatim>\<open>Format\<close> reads, in the
  time stamp's own zone: \<open>Month\<close> is 1..12, \<open>Weekday\<close> is 0 (Sunday) .. 6, \<open>ZoneOffset\<close>
  is in seconds east of UTC. \<open>appendInt\<close> is the zero-padded decimal field of
  \<^verbatim>\<open>time.Format\<close>; the layouts are only meant for fields within these ranges.
\<close>

record time =
  Year :: int
  Month :: nat
  Day :: nat
  Hour :: nat
  Minute :: nat
  Second :: nat
  Weekday :: nat
  ZoneOffset :: int

definition shortDayNames :: "string list" where
  "shortDayNames = [''Sun'', ''Mon'', ''Tue'', ''Wed'', ''Thu'', ''Fri'', ''Sat'']"

definition shortMonthNames :: "string list" where
  "shortMonthNames = [''Jan'', ''Feb'', ''Mar'', ''Apr'', ''May'', ''Jun'',
                      ''Jul'', ''Aug'', ''Sep'', ''Oct'', ''Nov'', ''Dec'']"

text \<open>\<^verbatim>\<open>formatDate\<close>: the layout \<^verbatim>\<open>"2006-01-02"\<close>.\<close>

definition formatDate :: "time \<Rightarrow> string" where
  "formatDate t =
     appendInt (Year t) 4 @ ''-'' @ appendInt (int (Month t)) 2 @ ''-'' @ appendInt (int (Day t)) 2"

text \<open>The layout \<^verbatim>\<open>"Mon Jan 2 15:04:05 2006 -0700"\<close> of the file history.\<close>

definition formatZone :: "int \<Rightarrow> string" where
  "formatZone off =
     (let zone = (if off < 0 then - ((- off) div 60) else off div 60);
          a = (if zone < 0 then - zone else zone)
      in (if zone < 0 then ''-'' else ''+'') @ appendInt (a div 60) 2 @ appendInt (a mod 60) 2)"

definition formatLong :: "time \<Rightarrow> string" where
  "formatLong t =
     (shortDayNames ! Weekday t) @ '' '' @ (shortMonthNames ! (Month t - 1)) @ '' '' @
     appendInt (int (Day t)) 0 @ '' '' @
     appendInt (int (Hour t)) 2 @ '':'' @ appendInt (int (Minute t)) 2 @ '':'' @
     appendInt (int (Second t)) 2 @ '' '' @ appendInt (Year t) 4 @ '' '' @ formatZone (ZoneOffset t)"

section \<open>The git library, as the program sees it\<close>

text \<open>
  The object store, the commit walk and the patch computation belong to the go-git
  library; the program only calls them. They are parameters of the model: a repository
  is the record of what each call returns.
\<close>

record signature =
  Name :: string
  Email :: string
  When :: time

record commit =
  c_Hash :: hash
  c_Author :: signature
  c_Message :: string
  c_TreeHash :: hash
  c_ParentHashes :: "hash list"

text \<open>A tree snapshot, flattened: the blob content found at each file path.\<close>

type_synonym tree = "(string \<times> string) list"

datatype operation = Equal | Add | Delete

datatype chunk = Chunk (chunk_Type: operation) (chunk_Content: string)

datatype diffFile = File (file_Path: string)

datatype filePatch = FilePatch (Files: "diffFile option \<times> diffFile option") (Chunks: "chunk list")

text \<open>
  A commit iterator: the commits that \<^verbatim>\<open>Next\<close> yields, then the error it ends with
  (\<open>None\<close> for the regular end of the walk).
\<close>

record commitIter =
  items :: "commit list"
  failure :: "error option"

record repository =
  Head :: "error + hash"
  CommitObject :: "hash \<Rightarrow> error + commit"
  TreeObject :: "hash \<Rightarrow> error + tree"
  Log :: "hash \<Rightarrow> error + commitIter"
  Patch :: "tree \<Rightarrow> tree \<Rightarrow> error + filePatch list"

definition NumParents :: "commit \<Rightarrow> nat" where
  "NumParents c = length (c_ParentHashes c)"

definition Parent :: "repository \<Rightarrow> commit \<Rightarrow> nat \<Rightarrow> error + commit" where
  "Parent r c i =
     (if i < length (c_ParentHashes c) then CommitObject r (c_ParentHashes c ! i)
      else Inl ''object not found'')"

definition Tree :: "repository \<Rightarrow> commit \<Rightarrow> error + tree" where
  "Tree r c = TreeObject r (c_TreeHash c)"

text \<open>
  \<^verbatim>\<open>ForEach\<close> of the library: the callback runs on each commit in turn and the first
  error stops the walk and is returned. The callback works on captured variables; they
  are the state \<open>s\<close>. (The callbacks of this program only return errors made by
  \<^verbatim>\<open>fmt.Errorf\<close>, never the library's stop sentinel.)
\<close>

fun ForEach :: "('s \<Rightarrow> commit \<Rightarrow> error option \<times> 's) \<Rightarrow> commit list \<Rightarrow> error option \<Rightarrow> 's
                 \<Rightarrow> error option \<times> 's" where
  "ForEach cb [] fail s = (fail, s)"
| "ForEach cb (c # cs) fail s =
     (case cb s c of
        (Some err, s') \<Rightarrow> (Some err, s')
      | (None, s') \<Rightarrow> ForEach cb cs fail s')"

section \<open>Process environment and repository location\<close>

type_synonym environ = "string \<rightharpoonup> string"

definition Getenv :: "environ \<Rightarrow> string \<Rightarrow> string" where
  "Getenv env key = (case env key of None \<Rightarrow> [] | Some v \<Rightarrow> v)"

text \<open>\<^verbatim>\<open>git.PlainOpen\<close>: what is found at each directory.\<close>

type_synonym disk = "string \<Rightarrow> error + repository"

text \<open>The directory \<^verbatim>\<open>getRepository\<close> computes, and \<^verbatim>\<open>getRepository\<close> itself.\<close>

definition repositoryDir :: "environ \<Rightarrow> string" where
  "repositoryDir env =
     (let dir = Getenv env ''CLIENT_WORKDIR''
      in if dir = [] then Getenv env ''WORKDIR'' else dir)"

definition getRepository :: "disk \<Rightarrow> environ \<Rightarrow> error + repository" where
  "getRepository PlainOpen env = PlainOpen (repositoryDir env)"



section \<open>Walking back from HEAD\<close>

text \<open>The loop of \<^verbatim>\<open>getCommitFromHead\<close>, with its counter \<open>i\<close>.\<close>

function walkBack :: "repository \<Rightarrow> int \<Rightarrow> int \<Rightarrow> commit \<Rightarrow> error + commit" where
  "walkBack r commitsBack i commit =
     (if i < commitsBack then
        (if NumParents commit = 0 then
           Inl (''reached root commit before going back '' @ itoa commitsBack @ '' commits'')
         else
           (case Parent r commit 0 of
              Inl err \<Rightarrow> Inl (''error walking commit history: '' @ err)
            | Inr commit' \<Rightarrow> walkBack r commitsBack (i + 1) commit'))
      else Inr commit)"
  by pat_completeness auto
termination
  by (relation "measure (\<lambda>(r, commitsBack, i, commit). nat (commitsBack - i))") auto

declare walkBack.simps [simp del]

definition getCommitFromHead :: "repository \<Rightarrow> int \<Rightarrow> error + commit" where
  "getCommitFromHead r commitsBack =
     (case Head r of
        Inl err \<Rightarrow> Inl (''error getting HEAD: '' @ err)
      | Inr ref \<Rightarrow>
          (case CommitObject r ref of
             Inl err \<Rightarrow> Inl (''error getting HEAD commit: '' @ err)
           | Inr commit \<Rightarrow> walkBack r commitsBack 0 commit))"

section \<open>Tool declarations and results\<close>

datatype paramType = NumberParam | StringParam

record property =
  p_name :: string
  p_type :: paramType
  p_description :: string
  p_required :: bool

record tool =
  t_name :: string
  t_description :: string
  t_params :: "property list"

definition gitLogTool :: tool where
  "gitLogTool =
     \<lparr>t_name = ''git-log'',
      t_description = ''Display git commit history with commit hash, author, date, and message.'',
      t_params = [\<lparr>p_name = ''limit'', p_type = NumberParam,
                   p_description = ''Number of commits to display (default: 10)'',
                   p_required = False\<rparr>]\<rparr>"

definition gitChangedFilesTool :: tool where
  "gitChangedFilesTool =
     \<lparr>t_name = ''git-changed-files'',
      t_description = ''List files changed between HEAD and a specified number of commits back.'',
      t_params = [\<lparr>p_name = ''commits_back'', p_type = NumberParam,
                   p_description = ''Number of commits to look back from HEAD'',
                   p_required = True\<rparr>]\<rparr>"

definition gitFileDiffTool :: tool where
  "gitFileDiffTool =
     \<lparr>t_name = ''git-file-diff'',
      t_description = ''Show the diff of a specific file between HEAD and N commits back.'',
      t_params = [\<lparr>p_name = ''file_path'', p_type = StringParam,
                   p_description = ''Path to the file to show diff for'',
                   p_required = True\<rparr>,
                  \<lparr>p_name = ''commits_back'', p_type = NumberParam,
                   p_description = ''Number of commits to look back from HEAD'',
                   p_required = True\<rparr>]\<rparr>"

definition gitFileHistoryTool :: tool where
  "gitFileHistoryTool =
     \<lparr>t_name = ''git-file-history'',
      t_description = ''Show the complete history of a file with all commits and their diffs.'',
      t_params = [\<lparr>p_name = ''file_path'', p_type = StringParam,
                   p_description = ''Path to the file to show history for'',
                   p_required = True\<rparr>]\<rparr>"

datatype content = TextContent string

record CallToolResult =
  Content :: "content list"
  IsError :: bool

text \<open>The two shapes of result literal the handlers build.\<close>

definition errorResult :: "string \<Rightarrow> CallToolResult" where
  "errorResult text = \<lparr>Content = [TextContent text], IsError = True\<rparr>"

definition textResult :: "string \<Rightarrow> CallToolResult" where
  "textResult text = \<lparr>Content = [TextContent text], IsError = False\<rparr>"

record GitCommit =
  Hash :: string
  Author :: string
  Date :: string
  Message :: string

record GitFileChange =
  Path :: string
  ChangeType :: string

section \<open>git-log\<close>

text \<open>\<^verbatim>\<open>strings.Split\<close> with a one-character separator.\<close>

fun strings_Split :: "string \<Rightarrow> char \<Rightarrow> string list" where
  "strings_Split [] sep = [[]]"
| "strings_Split (x # xs) sep =
     (if x = sep then [] # strings_Split xs sep
      else (case strings_Split xs sep of
              w # ws \<Rightarrow> (x # w) # ws
            | [] \<Rightarrow> [[x]]))"

definition toGitCommit :: "commit \<Rightarrow> GitCommit" where
  "toGitCommit c =
     \<lparr>Hash = c_Hash c,
      Author = Name (c_Author c),
      Date = formatDate (When (c_Author c)),
      Message = strings_Split (c_Message c) nl ! 0\<rparr>"

text \<open>The callback of git-log; its captured variables are \<open>commits\<close> and \<open>count\<close>.\<close>

definition logCallback :: "int \<Rightarrow> GitCommit list \<times> int \<Rightarrow> commit
                             \<Rightarrow> error option \<times> (GitCommit list \<times> int)" where
  "logCallback limit s c =
     (case s of (commits, count) \<Rightarrow>
        if count \<ge> limit then (Some ''reached limit'', (commits, count))
        else (None, (commits @ [toGitCommit c], count + 1)))"

definition renderCommit :: "GitCommit \<Rightarrow> string" where
  "renderCommit commit =
     ''Commit: '' @ Hash commit @ ''\<newline>'' @
     ''Author: '' @ Author commit @ ''\<newline>'' @
     ''Date: '' @ Date commit @ ''\<newline>'' @
     ''Message: '' @ Message commit @ ''\<newline>'' @
     ''----------------------------------------\<newline>''"

definition renderLog :: "GitCommit list \<Rightarrow> string" where
  "renderLog commits = ''Git History:\<newline>\<newline>'' @ concat (map renderCommit commits)"

definition logLimit :: "arguments \<Rightarrow> int" where
  "logLimit args =
     (case args ''limit'' of
        Some (Float64 val) \<Rightarrow> int_of_float64 val
      | _ \<Rightarrow> 10)"

definition gitLog :: "disk \<Rightarrow> environ \<Rightarrow> arguments \<Rightarrow> CallToolResult \<times> error option" where
  "gitLog PlainOpen env args =
     (let limit = logLimit args
      in case getRepository PlainOpen env of
           Inl err \<Rightarrow> (errorResult (''Error opening repository: '' @ err), None)
         | Inr r \<Rightarrow>
        (case Head r of
           Inl err \<Rightarrow> (errorResult (''Error getting HEAD reference: '' @ err), None)
         | Inr ref \<Rightarrow>
        (case Log r ref of
           Inl err \<Rightarrow> (errorResult (''Error getting commit history: '' @ err), None)
         | Inr commitIter \<Rightarrow>
        (case ForEach (logCallback limit) (items commitIter) (failure commitIter) ([], 0) of
           (Some err, (commits, count)) \<Rightarrow>
             if err \<noteq> ''reached limit''
             then (errorResult (''Error iterating commits: '' @ err), None)
             else (textResult (renderLog commits), None)
         | (None, (commits, count)) \<Rightarrow> (textResult (renderLog commits), None)))))"

section \<open>git-changed-files\<close>

fun changesLoop :: "filePatch list \<Rightarrow> GitFileChange list" where
  "changesLoop [] = []"
| "changesLoop (filePatch # rest) =
     (case Files filePatch of
        (None, Some toF) \<Rightarrow> \<lparr>Path = file_Path toF, ChangeType = ''Added''\<rparr> # changesLoop rest
      | (Some fromF, None) \<Rightarrow> \<lparr>Path = file_Path fromF, ChangeType = ''Deleted''\<rparr> # changesLoop rest
      | (Some fromF, Some toF) \<Rightarrow> \<lparr>Path = file_Path toF, ChangeType = ''Modified''\<rparr> # changesLoop rest
      | (None, None) \<Rightarrow> changesLoop rest)"

definition renderChange :: "GitFileChange \<Rightarrow> string" where
  "renderChange change = ''['' @ ChangeType change @ ''] '' @ Path change @ ''\<newline>''"

definition renderChanges :: "int \<Rightarrow> GitFileChange list \<Rightarrow> string" where
  "renderChanges commitsBack changes =
     ''Files changed in the last '' @ itoa commitsBack @ '' commits:\<newline>\<newline>'' @
     concat (map renderChange changes)"

definition gitChangedFiles :: "disk \<Rightarrow> environ \<Rightarrow> arguments \<Rightarrow> CallToolResult \<times> error option" where
  "gitChangedFiles PlainOpen env args =
     (let commitsBack = getNumber args ''commits_back'';
          commitsBack = (if commitsBack = 0 then 10 else commitsBack)
      in case getRepository PlainOpen env of
           Inl err \<Rightarrow> (errorResult (''Error opening repository: '' @ err), None)
         | Inr r \<Rightarrow>
        (case Head r of
           Inl err \<Rightarrow> (errorResult (''Error getting HEAD reference: '' @ err), None)
         | Inr headRef \<Rightarrow>
        (case getCommitFromHead r commitsBack of
           Inl err \<Rightarrow> (errorResult (''Error getting old commit: '' @ err), None)
         | Inr oldCommit \<Rightarrow>
        (case CommitObject r headRef of
           Inl err \<Rightarrow> (errorResult (''Error getting HEAD commit: '' @ err), None)
         | Inr headCommit \<Rightarrow>
        (case Tree r oldCommit of
           Inl err \<Rightarrow> (errorResult (''Error getting old commit tree: '' @ err), None)
         | Inr oldTree \<Rightarrow>
        (case Tree r headCommit of
           Inl err \<Rightarrow> (errorResult (''Error getting HEAD tree: '' @ err), None)
         | Inr headTree \<Rightarrow>
        (case Patch r oldTree headTree of
           Inl err \<Rightarrow> (errorResult (''Error getting changes: '' @ err), None)
         | Inr patch \<Rightarrow>
             (textResult (renderChanges commitsBack (changesLoop patch)), None))))))))"

section \<open>git-file-diff\<close>

fun renderChunks :: "chunk list \<Rightarrow> string" where
  "renderChunks [] = []"
| "renderChunks (chunk # rest) =
     (case chunk_Type chunk of
        Add \<Rightarrow> ''+'' @ chunk_Content chunk
      | Delete \<Rightarrow> ''-'' @ chunk_Content chunk
      | Equal \<Rightarrow> '' '' @ chunk_Content chunk) @ renderChunks rest"

text \<open>The condition under which a file patch is the one of \<open>filePath\<close>.\<close>

definition touches :: "string \<Rightarrow> filePatch \<Rightarrow> bool" where
  "touches filePath filePatch =
     (case Files filePatch of (fromF, toF) \<Rightarrow>
        (case fromF of Some f \<Rightarrow> file_Path f = filePath | None \<Rightarrow> False) \<or>
        (case toF of Some f \<Rightarrow> file_Path f = filePath | None \<Rightarrow> False))"

text \<open>The loop over the file patches, left at the first match.\<close>

fun fileDiffLoop :: "string \<Rightarrow> filePatch list \<Rightarrow> string" where
  "fileDiffLoop filePath [] = []"
| "fileDiffLoop filePath (filePatch # rest) =
     (if touches filePath filePatch then renderChunks (Chunks filePatch)
      else fileDiffLoop filePath rest)"

definition gitFileDiff :: "disk \<Rightarrow> environ \<Rightarrow> arguments \<Rightarrow> CallToolResult \<times> error option" where
  "gitFileDiff PlainOpen env args =
     (let filePath = getString args ''file_path''
      in if filePath = [] then (errorResult ''Error: file_path parameter is required'', None)
      else
     (let commitsBack = getNumber args ''commits_back'';
          commitsBack = (if commitsBack = 0 then 10 else commitsBack)
      in case getRepository PlainOpen env of
           Inl err \<Rightarrow> (errorResult (''Error opening repository: '' @ err), None)
         | Inr r \<Rightarrow>
        (case Head r of
           Inl err \<Rightarrow> (errorResult (''Error getting HEAD reference: '' @ err), None)
         | Inr headRef \<Rightarrow>
        (case getCommitFromHead r commitsBack of
           Inl err \<Rightarrow> (errorResult (''Error getting old commit: '' @ err), None)
         | Inr oldCommit \<Rightarrow>
        (case CommitObject r headRef of
           Inl err \<Rightarrow> (errorResult (''Error getting HEAD commit: '' @ err), None)
         | Inr headCommit \<Rightarrow>
        (case Tree r oldCommit of
           Inl err \<Rightarrow> (errorResult (''Error getting old commit tree: '' @ err), None)
         | Inr oldTree \<Rightarrow>
        (case Tree r headCommit of
           Inl err \<Rightarrow> (errorResult (''Error getting HEAD tree: '' @ err), None)
         | Inr headTree \<Rightarrow>
        (case Patch r oldTree headTree of
           Inl err \<Rightarrow> (errorResult (''Error getting changes: '' @ err), None)
         | Inr patch \<Rightarrow>
             (let fileDiff = fileDiffLoop filePath patch
              in if length fileDiff = 0
                 then (textResult (''No changes found for file: '' @ filePath), None)
                 else (textResult fileDiff, None))))))))))"

section \<open>git-file-history\<close>

text \<open>\<^verbatim>\<open>strings.ReplaceAll(s, "\n", "\n    ")\<close>.\<close>

definition indentMessage :: "string \<Rightarrow> string" where
  "indentMessage s = concat (map (\<lambda>ch. if ch = nl then ''\<newline>    '' else [ch]) s)"

definition commitHeader :: "commit \<Rightarrow> string" where
  "commitHeader c =
     ''commit '' @ c_Hash c @ ''\<newline>'' @
     ''Author: '' @ Name (c_Author c) @ '' <'' @ Email (c_Author c) @ ''>\<newline>'' @
     ''Date:   '' @ formatLong (When (c_Author c)) @ ''\<newline>\<newline>'' @
     ''    '' @ indentMessage (c_Message c) @ ''\<newline>\<newline>''"

fun historyLoop :: "string \<Rightarrow> filePatch list \<Rightarrow> string" where
  "historyLoop filePath [] = []"
| "historyLoop filePath (filePatch # rest) =
     (if touches filePath filePatch then
        (case Files filePatch of
           (None, toF) \<Rightarrow>
             ''diff --git a/'' @ filePath @ '' b/'' @ filePath @ ''\<newline>'' @
             ''new file mode 100644\<newline>''
         | (Some fromF, None) \<Rightarrow>
             ''diff --git a/'' @ filePath @ '' b/'' @ filePath @ ''\<newline>'' @
             ''deleted file mode 100644\<newline>''
         | (Some fromF, Some toF) \<Rightarrow>
             ''diff --git a/'' @ filePath @ '' b/'' @ filePath @ ''\<newline>'')
        @ renderChunks (Chunks filePatch)
      else historyLoop filePath rest)"

text \<open>
  The callback of git-file-history; its captured variables are the text written so far
  and \<open>prevCommit\<close>, the commit of the previous call.
\<close>

definition historyCallback :: "repository \<Rightarrow> string \<Rightarrow> string \<times> commit option \<Rightarrow> commit
                                 \<Rightarrow> error option \<times> (string \<times> commit option)" where
  "historyCallback r filePath s c =
     (case s of (result0, prevCommit) \<Rightarrow>
        (let result = result0 @ commitHeader c
         in case prevCommit of
              None \<Rightarrow> (None, (result, Some c))
            | Some prev \<Rightarrow>
           (case Tree r c of
              Inl err \<Rightarrow> (Some (''error getting current tree: '' @ err), (result, prevCommit))
            | Inr currTree \<Rightarrow>
           (case Tree r prev of
              Inl err \<Rightarrow> (Some (''error getting previous tree: '' @ err), (result, prevCommit))
            | Inr prevTree \<Rightarrow>
           (case Patch r currTree prevTree of
              Inl err \<Rightarrow> (Some (''error getting changes: '' @ err), (result, prevCommit))
            | Inr patch \<Rightarrow> (None, (result @ historyLoop filePath patch, Some c)))))))"

definition gitFileHistory :: "disk \<Rightarrow> environ \<Rightarrow> arguments \<Rightarrow> CallToolResult \<times> error option" where
  "gitFileHistory PlainOpen env args =
     (let filePath = getString args ''file_path''
      in if filePath = [] then (errorResult ''Error: file_path parameter is required'', None)
      else
        (case getRepository PlainOpen env of
           Inl err \<Rightarrow> (errorResult (''Error opening repository: '' @ err), None)
         | Inr r \<Rightarrow>
        (case Head r of
           Inl err \<Rightarrow> (errorResult (''Error getting HEAD reference: '' @ err), None)
         | Inr ref \<Rightarrow>
        (case Log r ref of
           Inl err \<Rightarrow> (errorResult (''Error getting commit history: '' @ err), None)
         | Inr commitIter \<Rightarrow>
        (case ForEach (historyCallback r filePath) (items commitIter) (failure commitIter) ([], None) of
           (Some err, s) \<Rightarrow> (errorResult (''Error iterating commits: '' @ err), None)
         | (None, (result, prevCommit)) \<Rightarrow>
             if length result = 0
             then (textResult (''No history found for file: '' @ filePath), None)
             else (textResult result, None))))))"

section \<open>Reference notions the properties are stated with\<close>

subsection \<open>First-parent ancestry\<close>

text \<open>
  The \<open>n\<close>-th first-parent ancestor of a commit, and the distance of a commit to the
  0-parent commit at the end of its first-parent chain: the terms in which the
  walk of \<^verbatim>\<open>getCommitFromHead\<close> is specified.
\<close>

fun nthAncestor :: "repository \<Rightarrow> commit \<Rightarrow> nat \<Rightarrow> commit option" where
  "nthAncestor r c 0 = Some c"
| "nthAncestor r c (Suc n) =
     (case c_ParentHashes c of
        [] \<Rightarrow> None
      | p # _ \<Rightarrow> (case CommitObject r p of Inl _ \<Rightarrow> None | Inr c' \<Rightarrow> nthAncestor r c' n))"

fun rootDistance :: "repository \<Rightarrow> commit \<Rightarrow> nat \<Rightarrow> bool" where
  "rootDistance r c 0 = (c_ParentHashes c = [])"
| "rootDistance r c (Suc d) =
     (case c_ParentHashes c of
        [] \<Rightarrow> False
      | p # _ \<Rightarrow> (case CommitObject r p of Inl _ \<Rightarrow> False | Inr c' \<Rightarrow> rootDistance r c' d))"

definition rootReached :: "int \<Rightarrow> error" where
  "rootReached n = ''reached root commit before going back '' @ itoa n @ '' commits''"

subsection \<open>Paths of a tree, and file patches that follow the trees\<close>

definition paths :: "tree \<Rightarrow> string set" where
  "paths t = fst ` set t"

text \<open>
  A file patch follows the two trees when it names one path: \<open>from\<close> is nil for a path
  that only the new tree has, \<open>to\<close> is nil for a path that only the old tree has, and
  otherwise both sides name the same path, found in both trees. Not every file patch of
  the library does: one that pairs the old and the new path of a renamed file has two
  different paths.
\<close>

definition filesFollowTrees :: "tree \<Rightarrow> tree \<Rightarrow> filePatch \<Rightarrow> bool" where
  "filesFollowTrees old new filePatch =
     (case Files filePatch of
        (None, Some toF) \<Rightarrow> file_Path toF \<notin> paths old \<and> file_Path toF \<in> paths new
      | (Some fromF, None) \<Rightarrow> file_Path fromF \<in> paths old \<and> file_Path fromF \<notin> paths new
      | (Some fromF, Some toF) \<Rightarrow>
          file_Path fromF = file_Path toF \<and> file_Path fromF \<in> paths old \<and> file_Path toF \<in> paths new
      | (None, None) \<Rightarrow> True)"

subsection \<open>The walk of git-file-history, commit by commit\<close>

text \<open>Each commit of the walk, paired with the commit visited just before it.\<close>

definition walkPairs :: "commit list \<Rightarrow> (commit option \<times> commit) list" where
  "walkPairs cs = zip (None # map Some cs) cs"

text \<open>Whether the tree lookups and the patch computation for one commit of the walk succeed.\<close>

fun stepOk :: "repository \<Rightarrow> commit option \<times> commit \<Rightarrow> bool" where
  "stepOk r (None, c) = True"
| "stepOk r (Some prev, c) =
     (case Tree r c of
        Inl _ \<Rightarrow> False
      | Inr currTree \<Rightarrow>
          (case Tree r prev of
             Inl _ \<Rightarrow> False
           | Inr prevTree \<Rightarrow> (case Patch r currTree prevTree of Inl _ \<Rightarrow> False | Inr _ \<Rightarrow> True)))"

text \<open>The diff text written below the summary of one commit of the walk.\<close>

fun diffSection :: "repository \<Rightarrow> string \<Rightarrow> commit option \<times> commit \<Rightarrow> string" where
  "diffSection r filePath (None, c) = []"
| "diffSection r filePath (Some prev, c) =
     (case Tree r c of
        Inl _ \<Rightarrow> []
      | Inr currTree \<Rightarrow>
          (case Tree r prev of
             Inl _ \<Rightarrow> []
           | Inr prevTree \<Rightarrow>
               (case Patch r currTree prevTree of
                  Inl _ \<Rightarrow> []
                | Inr patch \<Rightarrow> historyLoop filePath patch)))"

section \<open>The differs behind the library calls\<close>

subsection \<open>Content Differ\<close>

text \<open>
  Modelled from the spec: the line diff itself (\<open>diffLines\<close>) is computed inside the
  go-git library, of which the program only renders the chunks. The model follows
  section 4.4 of the specification: the content is split into lines that keep their
  terminator, and an edit script is read off the longest common subsequence of the two
  line sequences, matching common lines as early as possible.
\<close>

datatype editKind = EqualK | InsertK | DeleteK

record LineEdit =
  kind :: editKind
  text_of :: string

fun splitLines :: "string \<Rightarrow> string list" where
  "splitLines [] = []"
| "splitLines (c # cs) =
     (if c = nl then [c] # splitLines cs
      else (case splitLines cs of
              [] \<Rightarrow> [[c]]
            | l # ls \<Rightarrow> (c # l) # ls))"

fun lcsLength :: "string list \<Rightarrow> string list \<Rightarrow> nat" where
  "lcsLength [] ys = 0"
| "lcsLength (x # xs) [] = 0"
| "lcsLength (x # xs) (y # ys) =
     (if x = y then Suc (lcsLength xs ys)
      else max (lcsLength xs (y # ys)) (lcsLength (x # xs) ys))"

fun diffSeq :: "string list \<Rightarrow> string list \<Rightarrow> LineEdit list" where
  "diffSeq [] ys = map (\<lambda>y. \<lparr>kind = InsertK, text_of = y\<rparr>) ys"
| "diffSeq (x # xs) [] = map (\<lambda>x. \<lparr>kind = DeleteK, text_of = x\<rparr>) (x # xs)"
| "diffSeq (x # xs) (y # ys) =
     (if x = y then \<lparr>kind = EqualK, text_of = x\<rparr> # diffSeq xs ys
      else if lcsLength xs (y # ys) \<ge> lcsLength (x # xs) ys
           then \<lparr>kind = DeleteK, text_of = x\<rparr> # diffSeq xs (y # ys)
           else \<lparr>kind = InsertK, text_of = y\<rparr> # diffSeq (x # xs) ys)"

definition diffLines :: "string \<Rightarrow> string \<Rightarrow> LineEdit list" where
  "diffLines oldContent newContent = diffSeq (splitLines oldContent) (splitLines newContent)"

text \<open>What an edit script says the old and the new content were.\<close>

definition oldSide :: "LineEdit list \<Rightarrow> string" where
  "oldSide edits = concat (map text_of (filter (\<lambda>e. kind e = EqualK \<or> kind e = DeleteK) edits))"

definition newSide :: "LineEdit list \<Rightarrow> string" where
  "newSide edits = concat (map text_of (filter (\<lambda>e. kind e = EqualK \<or> kind e = InsertK) edits))"

subsection \<open>Tree Differ\<close>

text \<open>
  Modelled from the spec: the patch between two trees is computed inside the go-git
  library. The model follows section 4.3 of the specification on flattened trees: a path
  only in the new tree is added, a path only in the old tree is deleted, a path in both
  with different content is modified, and equal content emits nothing; the file patches
  come in the lexicographic order of their paths. It serves as the \<open>Patch\<close> of the
  example repositories below.
\<close>

definition toChunk :: "LineEdit \<Rightarrow> chunk" where
  "toChunk e =
     Chunk (case kind e of EqualK \<Rightarrow> Equal | InsertK \<Rightarrow> Add | DeleteK \<Rightarrow> Delete) (text_of e)"

definition treeDiff :: "tree \<Rightarrow> tree \<Rightarrow> filePatch list" where
  "treeDiff old new =
     concat (map (\<lambda>p.
        (case (map_of old p, map_of new p) of
           (Some c, None) \<Rightarrow> [FilePatch (Some (File p), None) (map toChunk (diffLines c []))]
         | (None, Some c') \<Rightarrow> [FilePatch (None, Some (File p)) (map toChunk (diffLines [] c'))]
         | (Some c, Some c') \<Rightarrow>
             if c = c' then []
             else [FilePatch (Some (File p), Some (File p)) (map toChunk (diffLines c c'))]
         | (None, None) \<Rightarrow> []))
       (sort (remdups (map fst old @ map fst new))))"

section \<open>Example repositories\<close>

text \<open>
  The scenario of the specification: a root commit, a commit that adds \<open>a.txt\<close> and a
  commit that changes it, each on top of a file that never changes. \<open>extra\<close> is the
  list of files present in all three trees.
\<close>

definition ada :: signature where
  "ada = \<lparr>Name = ''Ada'', Email = ''ada@example.org'',
          When = \<lparr>Year = 2024, Month = 3, Day = 20, Hour = 9, Minute = 5, Second = 7,
                  Weekday = 3, ZoneOffset = 3600\<rparr>\<rparr>"

definition commit0 :: commit where
  "commit0 = \<lparr>c_Hash = ''c0'', c_Author = ada, c_Message = ''root'',
              c_TreeHash = ''t0'', c_ParentHashes = []\<rparr>"

definition commit1 :: commit where
  "commit1 = \<lparr>c_Hash = ''c1'', c_Author = ada, c_Message = ''add a.txt'',
              c_TreeHash = ''t1'', c_ParentHashes = [''c0'']\<rparr>"

definition commit2 :: commit where
  "commit2 = \<lparr>c_Hash = ''c2'', c_Author = ada, c_Message = ''greet the world\<newline>\<newline>second line'',
              c_TreeHash = ''t2'', c_ParentHashes = [''c1'']\<rparr>"

definition scenarioRepo :: "tree \<Rightarrow> repository" where
  "scenarioRepo extra =
     \<lparr>Head = Inr ''c2'',
      CommitObject = (\<lambda>h. if h = ''c2'' then Inr commit2
                           else if h = ''c1'' then Inr commit1
                           else if h = ''c0'' then Inr commit0
                           else Inl ''object not found''),
      TreeObject = (\<lambda>h. if h = ''t2'' then Inr (extra @ [(''a.txt'', ''hello\<newline>world\<newline>'')])
                         else if h = ''t1'' then Inr (extra @ [(''a.txt'', ''hello\<newline>'')])
                         else if h = ''t0'' then Inr extra
                         else Inl ''object not found''),
      Log = (\<lambda>h. if h = ''c2'' then Inr \<lparr>items = [commit2, commit1, commit0], failure = None\<rparr>
                  else Inl ''object not found''),
      Patch = (\<lambda>old new. Inr (treeDiff old new))\<rparr>"

definition readme :: tree where
  "readme = [(''README.md'', ''read me\<newline>'')]"

definition scenarioDisk :: "tree \<Rightarrow> disk" where
  "scenarioDisk extra dir =
     (if dir = ''/repo'' then Inr (scenarioRepo extra) else Inl ''repository does not exist'')"

definition scenarioEnv :: environ where
  "scenarioEnv = [''WORKDIR'' \<mapsto> ''/repo'']"

text \<open>A repository whose commit walk breaks off with an error after the first commit.\<close>

definition brokenWalkRepo :: "error \<Rightarrow> repository" where
  "brokenWalkRepo e =
     (scenarioRepo readme)\<lparr>Log := (\<lambda>h. Inr \<lparr>items = [commit2], failure = Some e\<rparr>)\<rparr>"

definition brokenWalkDisk :: "error \<Rightarrow> disk" where
  "brokenWalkDisk e dir = Inr (brokenWalkRepo e)"

text \<open>
  A repository whose second commit renames \<open>old.txt\<close> to \<open>new.txt\<close>. Its \<open>Patch\<close>
  pairs the two paths in one file patch, as the rename detection of the library does.
\<close>

definition renameRepo :: repository where
  "renameRepo =
     (scenarioRepo [])
       \<lparr>TreeObject := (\<lambda>h. if h = ''t2'' then Inr [(''new.txt'', ''hello\<newline>'')]
                            else if h = ''t1'' then Inr [(''old.txt'', ''hello\<newline>'')]
                            else if h = ''t0'' then Inr []
                            else Inl ''object not found''),
        Patch := (\<lambda>old new.
                    Inr [FilePatch (Some (File ''old.txt''), Some (File ''new.txt''))
                           [Chunk Equal ''hello\<newline>'']])\<rparr>"

definition renameDisk :: disk where
  "renameDisk dir = Inr renameRepo"

text \<open>Two trees that differ by one added, one deleted and one modified file.\<close>

definition treeA :: tree where
  "treeA = [(''keep.txt'', ''k\<newline>''), (''gone.txt'', ''g\<newline>''), (''edit.txt'', ''one\<newline>'')]"

definition treeB :: tree where
  "treeB = [(''keep.txt'', ''k\<newline>''), (''edit.txt'', ''one\<newline>two\<newline>''), (''fresh.txt'', ''f\<newline>'')]"

text \<open>The environment of the scenario after \<open>WORKDIR\<close> has been pointed elsewhere.\<close>

definition movedEnv :: environ where
  "movedEnv = [''WORKDIR'' \<mapsto> ''/elsewhere'']"

section \<open>Shape of a formatted date\<close>




section \<open>Argument extraction\<close>

lemma getNumber_zero:
  "args key = None \<or> (\<exists>v. args key = Some v \<and> \<not> isNumber v) \<or> args key = Some (Float64 0)
   \<Longrightarrow> getNumber args key = 0"
  by (auto simp: getNumber_def int_of_float64_def truncFloat_def split: option.splits arg.splits)

lemma getNumber_ten: "getNumber (args(key \<mapsto> Float64 10)) key = 10"
  by (simp add: getNumber_def int_of_float64_def truncFloat_def)

lemma getString_other_key:
  "getString (args(''commits_back'' \<mapsto> v)) ''file_path'' = getString args ''file_path''"
  by (simp add: getString_def)

text \<open>
  C9: for git-changed-files and git-file-diff, a \<open>commits_back\<close> argument that is
  omitted, not a number, or equal to 0 is read as 0 by \<open>getNumber\<close> and then replaced by
  10, so the request is answered exactly as the request with \<open>commits_back\<close> = 10 is;
  both tools nevertheless declare the parameter as required.
\<close>

theorem commits_back_default:
  assumes "args ''commits_back'' = None
           \<or> (\<exists>v. args ''commits_back'' = Some v \<and> \<not> isNumber v)
           \<or> args ''commits_back'' = Some (Float64 0)"
  shows "getNumber args ''commits_back'' = 0
     \<and> gitChangedFiles PlainOpen env args
         = gitChangedFiles PlainOpen env (args(''commits_back'' \<mapsto> Float64 10))
     \<and> gitFileDiff PlainOpen env args
         = gitFileDiff PlainOpen env (args(''commits_back'' \<mapsto> Float64 10))
     \<and> map (\<lambda>p. (p_name p, p_required p)) (t_params gitChangedFilesTool)
         = [(''commits_back'', True)]
     \<and> map (\<lambda>p. (p_name p, p_required p)) (t_params gitFileDiffTool)
         = [(''file_path'', True), (''commits_back'', True)]"
proof -
  have z: "getNumber args ''commits_back'' = 0"
    using assms by (rule getNumber_zero)
  have a: "gitChangedFiles PlainOpen env args
             = gitChangedFiles PlainOpen env (args(''commits_back'' \<mapsto> Float64 10))"
    unfolding gitChangedFiles_def z getNumber_ten by simp
  have b: "gitFileDiff PlainOpen env args
             = gitFileDiff PlainOpen env (args(''commits_back'' \<mapsto> Float64 10))"
    by (cases "getString args ''file_path'' = []")
       (simp_all add: gitFileDiff_def z getNumber_ten getString_other_key)
  show ?thesis
    using z a b by (simp add: gitChangedFilesTool_def gitFileDiffTool_def)
qed

theorem commits_back_default_witness:
  "[''file_path'' \<mapsto> GoString ''a.txt''] ''commits_back'' = None
   \<and> getNumber [''file_path'' \<mapsto> GoString ''a.txt''] ''commits_back'' = 0
   \<and> gitFileDiff (scenarioDisk readme) scenarioEnv [''file_path'' \<mapsto> GoString ''a.txt'']
       = gitFileDiff (scenarioDisk readme) scenarioEnv
           [''file_path'' \<mapsto> GoString ''a.txt'', ''commits_back'' \<mapsto> Float64 10]"
proof -
  have h: "[''file_path'' \<mapsto> GoString ''a.txt''] ''commits_back'' = None"
    by simp
  show ?thesis
    using h commits_back_default [of "[''file_path'' \<mapsto> GoString ''a.txt'']" "scenarioDisk readme" scenarioEnv]
    by simp
qed

section \<open>The walk of getCommitFromHead\<close>

lemma Parent_first:
  "c_ParentHashes c = p # ps \<Longrightarrow> Parent r c 0 = CommitObject r p"
  by (simp add: Parent_def)

lemma walkBack_done: "\<not> i < n \<Longrightarrow> walkBack r n i c = Inr c"
  by (simp add: walkBack.simps)

lemma walkBack_root_now:
  "i < n \<Longrightarrow> c_ParentHashes c = [] \<Longrightarrow> walkBack r n i c = Inl (rootReached n)"
  by (simp add: walkBack.simps [of r n i c] NumParents_def rootReached_def)

lemma walkBack_step:
  "i < n \<Longrightarrow> c_ParentHashes c = p # ps \<Longrightarrow> CommitObject r p = Inr c'
   \<Longrightarrow> walkBack r n i c = walkBack r n (i + 1) c'"
  by (simp add: walkBack.simps [of r n i c] NumParents_def Parent_first)

lemma walkBack_nthAncestor:
  "nthAncestor r c (nat (n - i)) = Some a \<Longrightarrow> walkBack r n i c = Inr a"
proof (induction "nat (n - i)" arbitrary: c i)
  case 0
  then show ?case by (simp add: walkBack_done)
next
  case (Suc k)
  from Suc.hyps(2) have lt: "i < n" and k: "k = nat (n - (i + 1))" by linarith+
  from Suc.prems Suc.hyps(2) [symmetric]
  obtain p ps c' where ps: "c_ParentHashes c = p # ps" and co: "CommitObject r p = Inr c'"
      and anc: "nthAncestor r c' k = Some a"
    by (auto split: list.splits sum.splits)
  from anc k have "walkBack r n (i + 1) c' = Inr a"
    using Suc.hyps(1) [of "i + 1" c'] by simp
  with lt ps co show ?case by (simp add: walkBack_step)
qed

lemma getCommitFromHead_nthAncestor:
  "Head r = Inr ref \<Longrightarrow> CommitObject r ref = Inr c \<Longrightarrow> nthAncestor r c (nat n) = Some a
   \<Longrightarrow> getCommitFromHead r n = Inr a"
  using walkBack_nthAncestor [of r c n 0 a] by (simp add: getCommitFromHead_def)

lemma rootDistance_ancestor:
  "rootDistance r c d \<Longrightarrow> k \<le> d \<Longrightarrow> \<exists>a. nthAncestor r c k = Some a"
proof (induction k arbitrary: c d)
  case 0
  then show ?case by simp
next
  case (Suc k)
  then obtain d' where d: "d = Suc d'" by (cases d) auto
  with Suc.prems obtain p ps c' where "c_ParentHashes c = p # ps" "CommitObject r p = Inr c'"
      "rootDistance r c' d'"
    by (auto split: list.splits sum.splits)
  with Suc.IH [of c' d'] Suc.prems d show ?case by auto
qed

lemma walkBack_root:
  "rootDistance r c d \<Longrightarrow> int d < n - i \<Longrightarrow> walkBack r n i c = Inl (rootReached n)"
proof (induction d arbitrary: c i)
  case 0
  then show ?case by (simp add: walkBack_root_now)
next
  case (Suc d)
  from Suc.prems obtain p ps c' where ps: "c_ParentHashes c = p # ps"
      and co: "CommitObject r p = Inr c'" and rd: "rootDistance r c' d"
    by (auto split: list.splits sum.splits)
  from Suc.prems have lt: "i < n" and "int d < n - (i + 1)" by linarith+
  with rd have "walkBack r n (i + 1) c' = Inl (rootReached n)"
    using Suc.IH [of c' "i + 1"] by simp
  with lt ps co show ?case by (simp add: walkBack_step)
qed

lemma scenario_head: "Head (scenarioRepo extra) = Inr ''c2''"
  by (simp add: scenarioRepo_def)

lemma scenario_commits:
  "CommitObject (scenarioRepo extra) ''c2'' = Inr commit2"
  "CommitObject (scenarioRepo extra) ''c1'' = Inr commit1"
  "CommitObject (scenarioRepo extra) ''c0'' = Inr commit0"
  by (simp_all add: scenarioRepo_def)

lemma scenario_parents:
  "c_ParentHashes commit2 = [''c1'']"
  "c_ParentHashes commit1 = [''c0'']"
  "c_ParentHashes commit0 = []"
  by (simp_all add: commit2_def commit1_def commit0_def)

lemma scenario_distance: "rootDistance (scenarioRepo extra) commit2 2"
  by (simp add: numeral_2_eq_2 scenario_commits scenario_parents)

text \<open>
  C4: for a starting commit whose first-parent chain reaches a 0-parent commit after
  \<open>d\<close> steps, \<open>getCommitFromHead\<close> returns the \<open>n\<close>-th first-parent ancestor whenever
  \<open>n \<le> d\<close>, and fails with the root-reached error whenever \<open>n > d\<close>; it never returns
  another commit.
\<close>

theorem getCommitFromHead_nth_or_root:
  assumes "Head r = Inr ref" and "CommitObject r ref = Inr c" and "rootDistance r c d"
  shows "(0 \<le> n \<and> n \<le> int d \<longrightarrow>
            (\<exists>a. nthAncestor r c (nat n) = Some a \<and> getCommitFromHead r n = Inr a))
       \<and> (int d < n \<longrightarrow> getCommitFromHead r n = Inl (rootReached n))"
proof (intro conjI impI)
  assume n: "0 \<le> n \<and> n \<le> int d"
  then have "nat n \<le> d" by linarith
  with assms(3) obtain a where a: "nthAncestor r c (nat n) = Some a"
    using rootDistance_ancestor by blast
  then have "walkBack r n 0 c = Inr a"
    using walkBack_nthAncestor [of r c n 0 a] by simp
  with a assms(1,2)
  show "\<exists>a. nthAncestor r c (nat n) = Some a \<and> getCommitFromHead r n = Inr a"
    by (simp add: getCommitFromHead_def)
next
  assume "int d < n"
  with assms(3) have "walkBack r n 0 c = Inl (rootReached n)"
    by (simp add: walkBack_root)
  with assms(1,2) show "getCommitFromHead r n = Inl (rootReached n)"
    by (simp add: getCommitFromHead_def)
qed

theorem getCommitFromHead_nth_or_root_witness:
  "Head (scenarioRepo readme) = Inr ''c2''
   \<and> CommitObject (scenarioRepo readme) ''c2'' = Inr commit2
   \<and> rootDistance (scenarioRepo readme) commit2 2
   \<and> getCommitFromHead (scenarioRepo readme) 2 = Inr commit0
   \<and> getCommitFromHead (scenarioRepo readme) 3
       = Inl ''reached root commit before going back 3 commits''"
proof -
  have "itoa 3 = ''3''" by code_simp
  then have r3: "rootReached 3 = ''reached root commit before going back 3 commits''"
    by (simp add: rootReached_def)
  show ?thesis
    using getCommitFromHead_nth_or_root
            [OF scenario_head [of readme] scenario_commits(1) scenario_distance, of 2]
          getCommitFromHead_nth_or_root
            [OF scenario_head [of readme] scenario_commits(1) scenario_distance, of 3]
    by (simp add: numeral_2_eq_2 scenario_commits scenario_parents scenario_head r3)
qed

section \<open>Where the repository is looked for\<close>




section \<open>Line edits reconstruct both contents\<close>

lemma concat_splitLines: "concat (splitLines s) = s"
  by (induction s) (auto split: list.splits)

lemma oldSide_diffSeq: "oldSide (diffSeq xs ys) = concat xs"
  by (induction xs ys rule: diffSeq.induct) (auto simp: oldSide_def comp_def)

lemma newSide_diffSeq: "newSide (diffSeq xs ys) = concat ys"
  by (induction xs ys rule: diffSeq.induct) (auto simp: newSide_def comp_def)

text \<open>
  C8: for all pairs of file contents, the line diff is a sequence of Equal, Insert and
  Delete edits whose Equal and Delete texts, concatenated in order, are exactly the old
  content, and whose Equal and Insert texts are exactly the new content, a missing final
  line terminator included.
\<close>

theorem diffLines_reconstructs:
  "oldSide (diffLines oldContent newContent) = oldContent
   \<and> newSide (diffLines oldContent newContent) = newContent"
  by (simp add: diffLines_def oldSide_diffSeq newSide_diffSeq concat_splitLines)

section \<open>Classification of changed files\<close>

text \<open>The Tree Differ of the specification only makes file patches that follow the trees.\<close>

lemma treeDiff_follows_trees:
  "\<forall>fp \<in> set (treeDiff old new). filesFollowTrees old new fp"
proof
  fix fp
  assume "fp \<in> set (treeDiff old new)"
  then obtain p where
    fp: "fp \<in> set (case (map_of old p, map_of new p) of
           (Some c, None) \<Rightarrow> [FilePatch (Some (File p), None) (map toChunk (diffLines c []))]
         | (None, Some c') \<Rightarrow> [FilePatch (None, Some (File p)) (map toChunk (diffLines [] c'))]
         | (Some c, Some c') \<Rightarrow>
             if c = c' then []
             else [FilePatch (Some (File p), Some (File p)) (map toChunk (diffLines c c'))]
         | (None, None) \<Rightarrow> [])"
    by (auto simp: treeDiff_def)
  have inP: "map_of t p = Some c \<Longrightarrow> p \<in> paths t" for t c
    by (force simp: paths_def dest: map_of_SomeD)
  have outP: "map_of t p = None \<Longrightarrow> p \<notin> paths t" for t
    by (simp add: paths_def map_of_eq_None_iff)
  show "filesFollowTrees old new fp"
  proof (cases "map_of old p")
    case None
    note o = this
    show ?thesis
    proof (cases "map_of new p")
      case None
      with o fp show ?thesis by simp
    next
      case (Some c')
      with o fp inP [of new c'] outP [of old] show ?thesis
        by (simp add: filesFollowTrees_def)
    qed
  next
    case (Some c)
    note o = this
    show ?thesis
    proof (cases "map_of new p")
      case None
      with o fp inP [of old c] outP [of new] show ?thesis
        by (simp add: filesFollowTrees_def)
    next
      case (Some c')
      with o fp inP [of old c] inP [of new c'] show ?thesis
        by (simp add: filesFollowTrees_def split: if_splits)
    qed
  qed
qed

text \<open>
  C7, as stated, fails: where the second commit renames \<open>old.txt\<close> to \<open>new.txt\<close> and
  the patch pairs the two paths, \<open>new.txt\<close>, absent from the old tree and present in the
  new one, is reported Modified and not Added.
\<close>

theorem renamed_file_is_listed_modified:
  "Tree renameRepo commit1 = Inr [(''old.txt'', ''hello\<newline>'')]
   \<and> Tree renameRepo commit2 = Inr [(''new.txt'', ''hello\<newline>'')]
   \<and> Patch renameRepo [(''old.txt'', ''hello\<newline>'')] [(''new.txt'', ''hello\<newline>'')]
       = Inr [FilePatch (Some (File ''old.txt''), Some (File ''new.txt''))
               [Chunk Equal ''hello\<newline>'']]
   \<and> ''new.txt'' \<notin> paths [(''old.txt'', ''hello\<newline>'')]
   \<and> ''new.txt'' \<in> paths [(''new.txt'', ''hello\<newline>'')]
   \<and> gitChangedFiles renameDisk scenarioEnv [''commits_back'' \<mapsto> Float64 1]
       = (textResult (renderChanges 1 [\<lparr>Path = ''new.txt'', ChangeType = ''Modified''\<rparr>]), None)"
proof -
  have r: "getRepository renameDisk scenarioEnv = Inr renameRepo"
    by (simp add: getRepository_def renameDisk_def)
  have h: "Head renameRepo = Inr ''c2''"
    by (simp add: renameRepo_def scenarioRepo_def)
  have c: "CommitObject renameRepo = CommitObject (scenarioRepo [])"
    by (simp add: renameRepo_def)
  have g: "getCommitFromHead renameRepo 1 = Inr commit1"
    by (rule getCommitFromHead_nthAncestor [OF h, of commit2])
       (simp_all add: c scenario_commits scenario_parents)
  have t: "Tree renameRepo commit1 = Inr [(''old.txt'', ''hello\<newline>'')]"
      "Tree renameRepo commit2 = Inr [(''new.txt'', ''hello\<newline>'')]"
    by (simp_all add: Tree_def renameRepo_def commit1_def commit2_def)
  have p: "Patch renameRepo old new
       = Inr [FilePatch (Some (File ''old.txt''), Some (File ''new.txt''))
               [Chunk Equal ''hello\<newline>'']]" for old new
    by (simp add: renameRepo_def)
  have n: "getNumber [''commits_back'' \<mapsto> Float64 1] ''commits_back'' = 1"
    by (simp add: getNumber_def int_of_float64_def truncFloat_def)
  have "gitChangedFiles renameDisk scenarioEnv [''commits_back'' \<mapsto> Float64 1]
       = (textResult (renderChanges 1 [\<lparr>Path = ''new.txt'', ChangeType = ''Modified''\<rparr>]), None)"
    by (simp add: gitChangedFiles_def n r h g c scenario_commits t p)
  with t p show ?thesis by (simp add: paths_def)
qed

text \<open>
  C7, amended: every file change that git-changed-files reports comes from one file
  patch and is classified by the sides of that patch: Added under the new path when
  the patch has no old file, Deleted under the old path when it has no new file, and
  Modified under the new path when it has both. For a file patch that follows the two
  trees this is Added exactly for a path absent in the old tree and present in the new
  one, Deleted exactly for a path present in the old tree and absent in the new one,
  and Modified exactly for a path present in both. (A file patch that pairs the two
  paths of a rename is reported Modified under the new path.)
\<close>

theorem changesLoop_classifies_by_sides:
  "\<forall>ch \<in> set (changesLoop patch). \<exists>fp \<in> set patch.
      (case Files fp of
         (None, Some toF) \<Rightarrow> ch = \<lparr>Path = file_Path toF, ChangeType = ''Added''\<rparr>
       | (Some fromF, None) \<Rightarrow> ch = \<lparr>Path = file_Path fromF, ChangeType = ''Deleted''\<rparr>
       | (Some fromF, Some toF) \<Rightarrow> ch = \<lparr>Path = file_Path toF, ChangeType = ''Modified''\<rparr>
       | (None, None) \<Rightarrow> False)
      \<and> (filesFollowTrees old new fp \<longrightarrow>
           (ChangeType ch = ''Added'' \<longleftrightarrow> Path ch \<notin> paths old \<and> Path ch \<in> paths new)
         \<and> (ChangeType ch = ''Deleted'' \<longleftrightarrow> Path ch \<in> paths old \<and> Path ch \<notin> paths new)
         \<and> (ChangeType ch = ''Modified'' \<longleftrightarrow> Path ch \<in> paths old \<and> Path ch \<in> paths new))"
proof (induction patch)
  case Nil
  then show ?case by simp
next
  case (Cons fp rest)
  let ?P = "\<lambda>ch fp.
      (case Files fp of
         (None, Some toF) \<Rightarrow> ch = \<lparr>Path = file_Path toF, ChangeType = ''Added''\<rparr>
       | (Some fromF, None) \<Rightarrow> ch = \<lparr>Path = file_Path fromF, ChangeType = ''Deleted''\<rparr>
       | (Some fromF, Some toF) \<Rightarrow> ch = \<lparr>Path = file_Path toF, ChangeType = ''Modified''\<rparr>
       | (None, None) \<Rightarrow> False)
      \<and> (filesFollowTrees old new fp \<longrightarrow>
           (ChangeType ch = ''Added'' \<longleftrightarrow> Path ch \<notin> paths old \<and> Path ch \<in> paths new)
         \<and> (ChangeType ch = ''Deleted'' \<longleftrightarrow> Path ch \<in> paths old \<and> Path ch \<notin> paths new)
         \<and> (ChangeType ch = ''Modified'' \<longleftrightarrow> Path ch \<in> paths old \<and> Path ch \<in> paths new))"
  from Cons.IH have rest: "\<forall>ch \<in> set (changesLoop rest). \<exists>fp' \<in> set (fp # rest). ?P ch fp'"
    by auto
  obtain fromF toF where f: "Files fp = (fromF, toF)" by (cases "Files fp")
  have "\<forall>ch \<in> set (changesLoop (fp # rest)). \<exists>fp' \<in> set (fp # rest). ?P ch fp'"
  proof (cases fromF)
    case None
    note n = this
    show ?thesis
    proof (cases toF)
      case None
      with n f rest show ?thesis by simp
    next
      case (Some t)
      have "?P \<lparr>Path = file_Path t, ChangeType = ''Added''\<rparr> fp"
        using n f Some by (simp add: filesFollowTrees_def)
      with n f Some rest show ?thesis by simp
    qed
  next
    case (Some fr)
    note s = this
    show ?thesis
    proof (cases toF)
      case None
      have "?P \<lparr>Path = file_Path fr, ChangeType = ''Deleted''\<rparr> fp"
        using s f None by (simp add: filesFollowTrees_def)
      with s f None rest show ?thesis by simp
    next
      case (Some t)
      have "?P \<lparr>Path = file_Path t, ChangeType = ''Modified''\<rparr> fp"
        using s f Some by (auto simp: filesFollowTrees_def)
      with s f Some rest show ?thesis by simp
    qed
  qed
  then show ?case .
qed

lemma treeDiff_AB:
  "treeDiff treeA treeB =
     [FilePatch (Some (File ''edit.txt''), Some (File ''edit.txt''))
        [Chunk Equal ''one\<newline>'', Chunk Add ''two\<newline>''],
      FilePatch (None, Some (File ''fresh.txt'')) [Chunk Add ''f\<newline>''],
      FilePatch (Some (File ''gone.txt''), None) [Chunk Delete ''g\<newline>'']]"
  by code_simp

theorem changesLoop_classifies_by_sides_witness:
  "list_all (filesFollowTrees treeA treeB) (treeDiff treeA treeB)
   \<and> map (\<lambda>ch. (ChangeType ch, Path ch)) (changesLoop (treeDiff treeA treeB))
       = [(''Modified'', ''edit.txt''), (''Added'', ''fresh.txt''), (''Deleted'', ''gone.txt'')]
   \<and> list_all (\<lambda>ch.
           (ChangeType ch = ''Added'' \<longleftrightarrow> Path ch \<notin> paths treeA \<and> Path ch \<in> paths treeB)
         \<and> (ChangeType ch = ''Deleted'' \<longleftrightarrow> Path ch \<in> paths treeA \<and> Path ch \<notin> paths treeB)
         \<and> (ChangeType ch = ''Modified'' \<longleftrightarrow> Path ch \<in> paths treeA \<and> Path ch \<in> paths treeB))
        (changesLoop (treeDiff treeA treeB))"
proof -
  have h: "\<forall>fp \<in> set (treeDiff treeA treeB). filesFollowTrees treeA treeB fp"
    by (rule treeDiff_follows_trees)
  have m: "map (\<lambda>ch. (ChangeType ch, Path ch)) (changesLoop (treeDiff treeA treeB))
       = [(''Modified'', ''edit.txt''), (''Added'', ''fresh.txt''), (''Deleted'', ''gone.txt'')]"
    unfolding treeDiff_AB by simp
  have "\<forall>ch \<in> set (changesLoop (treeDiff treeA treeB)).
           (ChangeType ch = ''Added'' \<longleftrightarrow> Path ch \<notin> paths treeA \<and> Path ch \<in> paths treeB)
         \<and> (ChangeType ch = ''Deleted'' \<longleftrightarrow> Path ch \<in> paths treeA \<and> Path ch \<notin> paths treeB)
         \<and> (ChangeType ch = ''Modified'' \<longleftrightarrow> Path ch \<in> paths treeA \<and> Path ch \<in> paths treeB)"
  proof
    fix ch
    assume "ch \<in> set (changesLoop (treeDiff treeA treeB))"
    with changesLoop_classifies_by_sides [of "treeDiff treeA treeB" treeA treeB]
    obtain fp where "fp \<in> set (treeDiff treeA treeB)"
      and "filesFollowTrees treeA treeB fp \<longrightarrow>
           (ChangeType ch = ''Added'' \<longleftrightarrow> Path ch \<notin> paths treeA \<and> Path ch \<in> paths treeB)
         \<and> (ChangeType ch = ''Deleted'' \<longleftrightarrow> Path ch \<in> paths treeA \<and> Path ch \<notin> paths treeB)
         \<and> (ChangeType ch = ''Modified'' \<longleftrightarrow> Path ch \<in> paths treeA \<and> Path ch \<in> paths treeB)"
      by blast
    with h show "(ChangeType ch = ''Added'' \<longleftrightarrow> Path ch \<notin> paths treeA \<and> Path ch \<in> paths treeB)
         \<and> (ChangeType ch = ''Deleted'' \<longleftrightarrow> Path ch \<in> paths treeA \<and> Path ch \<notin> paths treeB)
         \<and> (ChangeType ch = ''Modified'' \<longleftrightarrow> Path ch \<in> paths treeA \<and> Path ch \<in> paths treeB)"
      by blast
  qed
  with h m show ?thesis unfolding list_all_iff by blast
qed

section \<open>The commit log\<close>

lemma ForEach_logCallback:
  "ForEach (logCallback limit) cs fail (acc, count) =
     (if nat (limit - count) < length cs then Some ''reached limit'' else fail,
      (acc @ map toGitCommit (take (nat (limit - count)) cs),
       count + int (min (nat (limit - count)) (length cs))))"
proof (induction cs arbitrary: acc count)
  case Nil
  then show ?case by simp
next
  case (Cons c cs)
  show ?case
  proof (cases "count \<ge> limit")
    case True
    then show ?thesis by (simp add: logCallback_def)
  next
    case False
    then obtain k where k: "nat (limit - count) = Suc k" and k': "nat (limit - (count + 1)) = k"
      by (cases "nat (limit - count)") auto
    from False have "ForEach (logCallback limit) (c # cs) fail (acc, count)
         = ForEach (logCallback limit) cs fail (acc @ [toGitCommit c], count + 1)"
      by (simp add: logCallback_def)
    also have "\<dots> = (if k < length cs then Some ''reached limit'' else fail,
      ((acc @ [toGitCommit c]) @ map toGitCommit (take k cs),
       (count + 1) + int (min k (length cs))))"
      unfolding Cons.IH k' ..
    finally show ?thesis by (simp add: k)
  qed
qed











lemma scenario_repo: "getRepository (scenarioDisk extra) scenarioEnv = Inr (scenarioRepo extra)"
  by (simp add: getRepository_def repositoryDir_def Getenv_def scenarioEnv_def scenarioDisk_def)

lemma scenario_log:
  "Log (scenarioRepo extra) ''c2'' = Inr \<lparr>items = [commit2, commit1, commit0], failure = None\<rparr>"
  by (simp add: scenarioRepo_def)




section \<open>Changed files between HEAD and an ancestor\<close>

lemma getCommitFromHead_root:
  "Head r = Inr ref \<Longrightarrow> CommitObject r ref = Inr c \<Longrightarrow> rootDistance r c d \<Longrightarrow> int d < n
   \<Longrightarrow> getCommitFromHead r n = Inl (rootReached n)"
  by (simp add: getCommitFromHead_def walkBack_root)

lemma scenario_trees:
  "Tree (scenarioRepo extra) commit2 = Inr (extra @ [(''a.txt'', ''hello\<newline>world\<newline>'')])"
  "Tree (scenarioRepo extra) commit1 = Inr (extra @ [(''a.txt'', ''hello\<newline>'')])"
  "Tree (scenarioRepo extra) commit0 = Inr extra"
  by (simp_all add: Tree_def scenarioRepo_def commit2_def commit1_def commit0_def)

lemma scenario_patch: "Patch (scenarioRepo extra) old new = Inr (treeDiff old new)"
  by (simp add: scenarioRepo_def)

lemma treeDiff_12:
  "treeDiff (readme @ [(''a.txt'', ''hello\<newline>'')]) (readme @ [(''a.txt'', ''hello\<newline>world\<newline>'')])
     = [FilePatch (Some (File ''a.txt''), Some (File ''a.txt''))
          [Chunk Equal ''hello\<newline>'', Chunk Add ''world\<newline>'']]"
  by code_simp

lemma treeDiff_12_bare:
  "treeDiff [(''a.txt'', ''hello\<newline>'')] [(''a.txt'', ''hello\<newline>world\<newline>'')]
     = [FilePatch (Some (File ''a.txt''), Some (File ''a.txt''))
          [Chunk Equal ''hello\<newline>'', Chunk Add ''world\<newline>'']]"
  by code_simp


lemma itoa_small: "itoa 1 = ''1''" "itoa 10 = ''10''"
  by code_simp+

text \<open>
  C2, as stated, fails at \<open>commits_back\<close> = 0: the handler replaces 0 by 10, so on the
  three-commit scenario it does not compare HEAD with itself but looks for the tenth
  ancestor and reports that the root was reached.
\<close>

theorem commits_back_zero_is_ten:
  "getNumber [''commits_back'' \<mapsto> Float64 0] ''commits_back'' = 0
   \<and> gitChangedFiles (scenarioDisk readme) scenarioEnv [''commits_back'' \<mapsto> Float64 0]
       = (errorResult ''Error getting old commit: reached root commit before going back 10 commits'',
          None)"
proof -
  have z: "getNumber [''commits_back'' \<mapsto> Float64 0] ''commits_back'' = 0"
    by (simp add: getNumber_def int_of_float64_def truncFloat_def)
  have "getCommitFromHead (scenarioRepo readme) 10 = Inl (rootReached 10)"
    using scenario_head scenario_commits(1) scenario_distance
    by (rule getCommitFromHead_root) simp
  then have "getCommitFromHead (scenarioRepo readme) 10
               = Inl ''reached root commit before going back 10 commits''"
    by (simp add: rootReached_def itoa_small)
  then show ?thesis
    by (simp add: gitChangedFiles_def z scenario_repo scenario_head)
qed

text \<open>
  C2, amended: with \<open>n\<close> the integer value of \<open>commits_back\<close>, replaced by 10 when it
  is 0, git-changed-files reports the file changes of the patch from the tree of the
  \<open>n\<close>-th first-parent ancestor of HEAD to the tree of HEAD (HEAD itself when \<open>n\<close> is
  negative); a \<open>commits_back\<close> of 0 is answered as a \<open>commits_back\<close> of 10.
\<close>

theorem gitChangedFiles_against_ancestor:
  assumes "getRepository PlainOpen env = Inr r" and "Head r = Inr ref"
      and "CommitObject r ref = Inr headCommit"
      and "n = (if getNumber args ''commits_back'' = 0 then 10 else getNumber args ''commits_back'')"
      and "nthAncestor r headCommit (nat n) = Some oldCommit"
      and "Tree r oldCommit = Inr oldTree" and "Tree r headCommit = Inr headTree"
      and "Patch r oldTree headTree = Inr patch"
  shows "gitChangedFiles PlainOpen env args = (textResult (renderChanges n (changesLoop patch)), None)"
proof -
  have "getCommitFromHead r n = Inr oldCommit"
    using assms(2,3,5) by (rule getCommitFromHead_nthAncestor)
  with assms show ?thesis
    by (simp add: gitChangedFiles_def)
qed

theorem gitChangedFiles_against_ancestor_witness:
  "getRepository (scenarioDisk readme) scenarioEnv = Inr (scenarioRepo readme)
   \<and> nthAncestor (scenarioRepo readme) commit2 (nat 1) = Some commit1
   \<and> gitChangedFiles (scenarioDisk readme) scenarioEnv [''commits_back'' \<mapsto> Float64 1]
       = (textResult (renderChanges 1 [\<lparr>Path = ''a.txt'', ChangeType = ''Modified''\<rparr>]), None)"
proof -
  have n: "1 = (if getNumber [''commits_back'' \<mapsto> Float64 1] ''commits_back'' = 0 then 10
                else getNumber [''commits_back'' \<mapsto> Float64 1] ''commits_back'')"
    by (simp add: getNumber_def int_of_float64_def truncFloat_def)
  have a: "nthAncestor (scenarioRepo readme) commit2 (nat 1) = Some commit1"
    by (simp add: scenario_commits scenario_parents)
  have p: "Patch (scenarioRepo readme) (readme @ [(''a.txt'', ''hello\<newline>'')])
             (readme @ [(''a.txt'', ''hello\<newline>world\<newline>'')])
           = Inr [FilePatch (Some (File ''a.txt''), Some (File ''a.txt''))
                   [Chunk Equal ''hello\<newline>'', Chunk Add ''world\<newline>'']]"
    by (simp add: scenario_patch treeDiff_12)
  show ?thesis
    using gitChangedFiles_against_ancestor
            [OF scenario_repo [of readme] scenario_head scenario_commits(1) n a
                scenario_trees(2) scenario_trees(1) p]
    by (simp add: scenario_repo scenario_commits scenario_parents)
qed

section \<open>The diff of one file\<close>

lemma fileDiffLoop_untouched:
  "\<forall>fp \<in> set patch. \<not> touches filePath fp \<Longrightarrow> fileDiffLoop filePath patch = []"
  by (induction patch) auto

text \<open>
  C3, as stated, fails in its second half: a path that is in no tree of the range gets
  the very result that an unchanged path gets. The first repository has
  \<open>README.md\<close>, unchanged, in both trees; the second has it in neither.
\<close>

theorem no_changes_also_for_unknown_path:
  "Tree (scenarioRepo readme) commit1 = Inr [(''README.md'', ''read me\<newline>''), (''a.txt'', ''hello\<newline>'')]
   \<and> Tree (scenarioRepo readme) commit2
       = Inr [(''README.md'', ''read me\<newline>''), (''a.txt'', ''hello\<newline>world\<newline>'')]
   \<and> Tree (scenarioRepo []) commit1 = Inr [(''a.txt'', ''hello\<newline>'')]
   \<and> Tree (scenarioRepo []) commit2 = Inr [(''a.txt'', ''hello\<newline>world\<newline>'')]
   \<and> gitFileDiff (scenarioDisk readme) scenarioEnv
        [''file_path'' \<mapsto> GoString ''README.md'', ''commits_back'' \<mapsto> Float64 1]
       = (textResult ''No changes found for file: README.md'', None)
   \<and> gitFileDiff (scenarioDisk []) scenarioEnv
        [''file_path'' \<mapsto> GoString ''README.md'', ''commits_back'' \<mapsto> Float64 1]
       = (textResult ''No changes found for file: README.md'', None)"
proof -
  let ?args = "[''file_path'' \<mapsto> GoString ''README.md'', ''commits_back'' \<mapsto> Float64 1]"
  have f: "getString ?args ''file_path'' = ''README.md''"
    by (simp add: getString_def)
  have n: "getNumber ?args ''commits_back'' = 1"
    by (simp add: getNumber_def int_of_float64_def truncFloat_def)
  have g: "getCommitFromHead (scenarioRepo extra) 1 = Inr commit1" for extra
    by (rule getCommitFromHead_nthAncestor [OF scenario_head scenario_commits(1)])
       (simp add: scenario_commits scenario_parents)
  have t: "touches ''README.md'' (FilePatch (Some (File ''a.txt''), Some (File ''a.txt'')) cs) = False" for cs
    by (simp add: touches_def)
  have A: "gitFileDiff (scenarioDisk readme) scenarioEnv ?args
       = (textResult ''No changes found for file: README.md'', None)"
    by (simp add: gitFileDiff_def f n g scenario_repo scenario_head scenario_commits scenario_trees
          scenario_patch treeDiff_12 t)
  have B: "gitFileDiff (scenarioDisk []) scenarioEnv ?args
       = (textResult ''No changes found for file: README.md'', None)"
    by (simp add: gitFileDiff_def f n g scenario_repo scenario_head scenario_commits scenario_trees
          scenario_patch treeDiff_12_bare t)
  show ?thesis
    using A B by (simp add: scenario_trees readme_def)
qed

text \<open>
  C3, amended: for every git-file-diff request whose file path is touched by no file
  patch between the \<open>n\<close>-th ancestor and HEAD, the result is the non-error text
  \<open>No changes found for file: <path>\<close>, whether the path is unchanged in the two
  trees or absent from both; there is no separate path-not-found result.
\<close>

theorem gitFileDiff_no_changes:
  assumes "getString args ''file_path'' = filePath" and "filePath \<noteq> []"
      and "getRepository PlainOpen env = Inr r" and "Head r = Inr ref"
      and "CommitObject r ref = Inr headCommit"
      and "n = (if getNumber args ''commits_back'' = 0 then 10 else getNumber args ''commits_back'')"
      and "nthAncestor r headCommit (nat n) = Some oldCommit"
      and "Tree r oldCommit = Inr oldTree" and "Tree r headCommit = Inr headTree"
      and "Patch r oldTree headTree = Inr patch"
      and "\<forall>fp \<in> set patch. \<not> touches filePath fp"
  shows "gitFileDiff PlainOpen env args
           = (textResult (''No changes found for file: '' @ filePath), None)"
proof -
  have "getCommitFromHead r n = Inr oldCommit"
    using assms(4,5,7) by (rule getCommitFromHead_nthAncestor)
  moreover have "fileDiffLoop filePath patch = []"
    using assms(11) by (rule fileDiffLoop_untouched)
  ultimately show ?thesis
    using assms by (simp add: gitFileDiff_def)
qed

theorem gitFileDiff_no_changes_witness:
  "gitFileDiff (scenarioDisk readme) scenarioEnv
      [''file_path'' \<mapsto> GoString ''README.md'', ''commits_back'' \<mapsto> Float64 1]
     = (textResult ''No changes found for file: README.md'', None)"
proof -
  let ?args = "[''file_path'' \<mapsto> GoString ''README.md'', ''commits_back'' \<mapsto> Float64 1]"
  have f: "getString ?args ''file_path'' = ''README.md''"
    by (simp add: getString_def)
  have ne: "''README.md'' \<noteq> []" by simp
  have n: "1 = (if getNumber ?args ''commits_back'' = 0 then 10 else getNumber ?args ''commits_back'')"
    by (simp add: getNumber_def int_of_float64_def truncFloat_def)
  have a: "nthAncestor (scenarioRepo readme) commit2 (nat 1) = Some commit1"
    by (simp add: scenario_commits scenario_parents)
  have p: "Patch (scenarioRepo readme) (readme @ [(''a.txt'', ''hello\<newline>'')])
             (readme @ [(''a.txt'', ''hello\<newline>world\<newline>'')])
           = Inr [FilePatch (Some (File ''a.txt''), Some (File ''a.txt''))
                   [Chunk Equal ''hello\<newline>'', Chunk Add ''world\<newline>'']]"
    by (simp add: scenario_patch treeDiff_12)
  have u: "\<forall>fp \<in> set [FilePatch (Some (File ''a.txt''), Some (File ''a.txt''))
                   [Chunk Equal ''hello\<newline>'', Chunk Add ''world\<newline>'']]. \<not> touches ''README.md'' fp"
    by (simp add: touches_def)
  show ?thesis
    using gitFileDiff_no_changes
            [OF f ne scenario_repo [of readme] scenario_head scenario_commits(1) n a
                scenario_trees(2) scenario_trees(1) p u]
    by simp
qed

section \<open>The history of one file\<close>

lemma commitHeader_nonempty: "commitHeader c \<noteq> []"
  by (simp add: commitHeader_def)

lemma historyCallback_first:
  "historyCallback r filePath (res, None) c = (None, (res @ commitHeader c, Some c))"
  by (simp add: historyCallback_def)

lemma historyCallback_ok:
  "stepOk r (Some prev, c) \<Longrightarrow>
   historyCallback r filePath (res, Some prev) c
     = (None, (res @ commitHeader c @ diffSection r filePath (Some prev, c), Some c))"
  by (auto simp: historyCallback_def split: sum.splits)

lemma historyCallback_fails:
  "\<not> stepOk r (Some prev, c) \<Longrightarrow>
   \<exists>e s. historyCallback r filePath (res, Some prev) c = (Some e, s)"
  by (auto simp: historyCallback_def split: sum.splits)

lemma historyCallback_step:
  "stepOk r (prev, c) \<Longrightarrow>
   historyCallback r filePath (res, prev) c
     = (None, (res @ commitHeader c @ diffSection r filePath (prev, c), Some c))"
  by (cases prev) (simp_all add: historyCallback_first historyCallback_ok)

lemma ForEach_historyCallback:
  "\<forall>pc \<in> set (zip (prev # map Some cs) cs). stepOk r pc \<Longrightarrow>
   \<exists>last. ForEach (historyCallback r filePath) cs fail (res, prev)
     = (fail, (res @ concat (map (\<lambda>pc. commitHeader (snd pc) @ diffSection r filePath pc)
                               (zip (prev # map Some cs) cs)), last))"
proof (induction cs arbitrary: res prev)
  case Nil
  then show ?case by simp
next
  case (Cons c cs)
  then have ok: "stepOk r (prev, c)" and rest: "\<forall>pc \<in> set (zip (Some c # map Some cs) cs). stepOk r pc"
    by simp_all
  from Cons.IH [OF rest, of "res @ commitHeader c @ diffSection r filePath (prev, c)"]
  obtain last where "ForEach (historyCallback r filePath) cs fail
        (res @ commitHeader c @ diffSection r filePath (prev, c), Some c)
     = (fail, ((res @ commitHeader c @ diffSection r filePath (prev, c))
                @ concat (map (\<lambda>pc. commitHeader (snd pc) @ diffSection r filePath pc)
                               (zip (Some c # map Some cs) cs)), last))"
    by blast
  with ok show ?case by (simp add: historyCallback_step)
qed

lemma ForEach_historyCallback_fails:
  "\<not> (\<forall>pc \<in> set (zip (prev # map Some cs) cs). stepOk r pc) \<Longrightarrow>
   \<exists>e s. ForEach (historyCallback r filePath) cs fail (res, prev) = (Some e, s)"
proof (induction cs arbitrary: res prev)
  case Nil
  then show ?case by simp
next
  case (Cons c cs)
  show ?case
  proof (cases "stepOk r (prev, c)")
    case True
    with Cons.prems have "\<not> (\<forall>pc \<in> set (zip (Some c # map Some cs) cs). stepOk r pc)"
      by simp
    from Cons.IH [OF this] True show ?thesis by (simp add: historyCallback_step)
  next
    case False
    then obtain p where p: "prev = Some p" by (cases prev) auto
    with False historyCallback_fails [of r p c filePath res] show ?thesis by auto
  qed
qed



lemma scenario_stepOk:
  "\<forall>pc \<in> set (walkPairs [commit2, commit1, commit0]). stepOk (scenarioRepo extra) pc"
  by (simp add: walkPairs_def scenario_trees scenario_patch)




lemma gitFileHistory_text:
  assumes "getString args ''file_path'' = filePath" and "filePath \<noteq> []"
      and "getRepository PlainOpen env = Inr r" and "Head r = Inr ref" and "Log r ref = Inr it"
      and "failure it = None" and "items it \<noteq> []"
      and "\<forall>pc \<in> set (walkPairs (items it)). stepOk r pc"
  shows "gitFileHistory PlainOpen env args
           = (textResult (concat (map (\<lambda>pc. commitHeader (snd pc) @ diffSection r filePath pc)
                                      (walkPairs (items it)))), None)"
proof -
  define body where "body = concat (map (\<lambda>pc. commitHeader (snd pc) @ diffSection r filePath pc)
                                     (walkPairs (items it)))"
  from assms(8) obtain last where
    fe: "ForEach (historyCallback r filePath) (items it) (failure it) ([], None)
           = (failure it, (body, last))"
    using ForEach_historyCallback [of None "items it" r filePath "failure it" "[]"]
    by (auto simp: walkPairs_def body_def)
  from assms(7) obtain c cs where cs: "items it = c # cs" by (cases "items it") auto
  then have ne: "body \<noteq> []" by (simp add: body_def walkPairs_def commitHeader_nonempty)
  have "gitFileHistory PlainOpen env args = (textResult body, None)"
    using assms(1-6) fe ne by (simp add: gitFileHistory_def)
  then show ?thesis by (simp add: body_def)
qed



lemma scenario_history:
  "gitFileHistory (scenarioDisk readme) scenarioEnv (args(''file_path'' \<mapsto> GoString (p # ps)))
     = (textResult (commitHeader commit2
          @ commitHeader commit1 @ diffSection (scenarioRepo readme) (p # ps) (Some commit2, commit1)
          @ commitHeader commit0 @ diffSection (scenarioRepo readme) (p # ps) (Some commit1, commit0)),
        None)"
proof -
  have f: "getString (args(''file_path'' \<mapsto> GoString (p # ps))) ''file_path'' = p # ps"
    by (simp add: getString_def)
  have i: "items \<lparr>items = [commit2, commit1, commit0], failure = None\<rparr> \<noteq> []" by simp
  have s: "\<forall>pc \<in> set (walkPairs (items \<lparr>items = [commit2, commit1, commit0], failure = None\<rparr>)).
             stepOk (scenarioRepo readme) pc"
    using scenario_stepOk by simp
  show ?thesis
    using gitFileHistory_text [OF f _ scenario_repo [of readme] scenario_head scenario_log _ i s]
    by (simp add: walkPairs_def)
qed


section \<open>Failures are reported in the result\<close>

lemma gitLog_nil: "snd (gitLog PlainOpen env args) = None"
  by (simp add: gitLog_def Let_def split: sum.splits option.splits prod.splits)

lemma gitChangedFiles_nil: "snd (gitChangedFiles PlainOpen env args) = None"
  by (simp add: gitChangedFiles_def Let_def split: sum.splits)

lemma gitFileDiff_nil: "snd (gitFileDiff PlainOpen env args) = None"
  by (simp add: gitFileDiff_def Let_def split: sum.splits)

lemma gitFileHistory_nil: "snd (gitFileHistory PlainOpen env args) = None"
  by (simp add: gitFileHistory_def Let_def split: sum.splits option.splits prod.splits)

lemma IsError_results: "IsError (errorResult t)" "\<not> IsError (textResult t)"
  by (simp_all add: errorResult_def textResult_def)

lemma gitLog_in_band:
  assumes "\<not> IsError (fst (gitLog PlainOpen env args))"
  shows "\<exists>r ref it. getRepository PlainOpen env = Inr r \<and> Head r = Inr ref \<and> Log r ref = Inr it
           \<and> (failure it = None \<or> failure it = Some ''reached limit''
                \<or> nat (logLimit args) < length (items it))"
proof -
  from assms obtain r ref it where r: "getRepository PlainOpen env = Inr r"
      and h: "Head r = Inr ref" and l: "Log r ref = Inr it"
    by (auto simp: gitLog_def Let_def IsError_results split: sum.splits)
  from assms r h l
  have "failure it = None \<or> failure it = Some ''reached limit''
          \<or> nat (logLimit args) < length (items it)"
    by (cases "failure it")
       (auto simp: gitLog_def Let_def IsError_results ForEach_logCallback split: if_splits)
  with r h l show ?thesis by blast
qed

lemma gitChangedFiles_in_band:
  assumes "\<not> IsError (fst (gitChangedFiles PlainOpen env args))"
  shows "\<exists>r ref oldCommit headCommit oldTree headTree patch.
           getRepository PlainOpen env = Inr r \<and> Head r = Inr ref
         \<and> getCommitFromHead r (if getNumber args ''commits_back'' = 0 then 10
                                  else getNumber args ''commits_back'') = Inr oldCommit
         \<and> CommitObject r ref = Inr headCommit
         \<and> Tree r oldCommit = Inr oldTree \<and> Tree r headCommit = Inr headTree
         \<and> Patch r oldTree headTree = Inr patch"
proof -
  define n where "n = (if getNumber args ''commits_back'' = 0 then 10
                       else getNumber args ''commits_back'')"
  from assms show ?thesis
    unfolding gitChangedFiles_def Let_def n_def [symmetric]
    by (simp add: IsError_results split: sum.splits)
qed

lemma gitFileDiff_in_band:
  assumes "\<not> IsError (fst (gitFileDiff PlainOpen env args))"
  shows "getString args ''file_path'' \<noteq> []
       \<and> (\<exists>r ref oldCommit headCommit oldTree headTree patch.
           getRepository PlainOpen env = Inr r \<and> Head r = Inr ref
         \<and> getCommitFromHead r (if getNumber args ''commits_back'' = 0 then 10
                                  else getNumber args ''commits_back'') = Inr oldCommit
         \<and> CommitObject r ref = Inr headCommit
         \<and> Tree r oldCommit = Inr oldTree \<and> Tree r headCommit = Inr headTree
         \<and> Patch r oldTree headTree = Inr patch)"
proof (cases "getString args ''file_path'' = []")
  case True
  with assms show ?thesis by (simp add: gitFileDiff_def IsError_results)
next
  case False
  define n where "n = (if getNumber args ''commits_back'' = 0 then 10
                       else getNumber args ''commits_back'')"
  from assms False show ?thesis
    unfolding gitFileDiff_def Let_def n_def [symmetric]
    by (simp add: IsError_results split: sum.splits)
qed

lemma gitFileHistory_in_band:
  assumes "\<not> IsError (fst (gitFileHistory PlainOpen env args))"
  shows "getString args ''file_path'' \<noteq> []
       \<and> (\<exists>r ref it. getRepository PlainOpen env = Inr r \<and> Head r = Inr ref \<and> Log r ref = Inr it
             \<and> failure it = None \<and> (\<forall>pc \<in> set (walkPairs (items it)). stepOk r pc))"
proof (cases "getString args ''file_path'' = []")
  case True
  with assms show ?thesis by (simp add: gitFileHistory_def IsError_results)
next
  case False
  with assms obtain r ref it where r: "getRepository PlainOpen env = Inr r" and h: "Head r = Inr ref"
      and l: "Log r ref = Inr it"
    by (auto simp: gitFileHistory_def Let_def IsError_results split: sum.splits)
  let ?fe = "ForEach (historyCallback r (getString args ''file_path'')) (items it) (failure it) ([], None)"
  from assms False r h l have ok: "fst ?fe = None"
    by (cases ?fe) (auto simp: gitFileHistory_def Let_def IsError_results split: option.splits)
  have all: "\<forall>pc \<in> set (walkPairs (items it)). stepOk r pc"
  proof (rule ccontr)
    assume "\<not> (\<forall>pc \<in> set (walkPairs (items it)). stepOk r pc)"
    then obtain e s where "?fe = (Some e, s)"
      using ForEach_historyCallback_fails [of None "items it" r "getString args ''file_path''" "failure it" "[]"]
      by (auto simp: walkPairs_def)
    with ok show False by simp
  qed
  then obtain last body where "?fe = (failure it, (body, last))"
    using ForEach_historyCallback [of None "items it" r "getString args ''file_path''" "failure it" "[]"]
    by (auto simp: walkPairs_def)
  with ok have "failure it = None" by simp
  with False r h l all show ?thesis by blast
qed


text \<open>
  C10: on every invocation every handler returns a nil Go error, and every failure is
  reported in the result: a result that is not flagged \<open>IsError\<close> means that the file
  path was given where it is required, the repository opened, HEAD resolved, every commit
  and tree lookup and every patch computation succeeded, and the commit walk did not
  fail (it ended regularly or, in git-log, was stopped by the limit). The text
  \<open>reached limit\<close> is the stop signal of the git-log callback and no failure of the
  library's commit walk.
\<close>

theorem handlers_report_in_band:
  assumes "\<forall>r ref it. getRepository PlainOpen env = Inr r \<and> Head r = Inr ref \<and> Log r ref = Inr it
             \<longrightarrow> failure it \<noteq> Some ''reached limit''"
  shows "snd (gitLog PlainOpen env args) = None
   \<and> snd (gitChangedFiles PlainOpen env args) = None
   \<and> snd (gitFileDiff PlainOpen env args) = None
   \<and> snd (gitFileHistory PlainOpen env args) = None
   \<and> (\<not> IsError (fst (gitLog PlainOpen env args)) \<longrightarrow>
        (\<exists>r ref it. getRepository PlainOpen env = Inr r \<and> Head r = Inr ref \<and> Log r ref = Inr it
           \<and> (failure it = None \<or> nat (logLimit args) < length (items it))))
   \<and> (\<not> IsError (fst (gitChangedFiles PlainOpen env args)) \<longrightarrow>
        (\<exists>r ref oldCommit headCommit oldTree headTree patch.
           getRepository PlainOpen env = Inr r \<and> Head r = Inr ref
         \<and> getCommitFromHead r (if getNumber args ''commits_back'' = 0 then 10
                                  else getNumber args ''commits_back'') = Inr oldCommit
         \<and> CommitObject r ref = Inr headCommit
         \<and> Tree r oldCommit = Inr oldTree \<and> Tree r headCommit = Inr headTree
         \<and> Patch r oldTree headTree = Inr patch))
   \<and> (\<not> IsError (fst (gitFileDiff PlainOpen env args)) \<longrightarrow>
        getString args ''file_path'' \<noteq> []
        \<and> (\<exists>r ref oldCommit headCommit oldTree headTree patch.
           getRepository PlainOpen env = Inr r \<and> Head r = Inr ref
         \<and> getCommitFromHead r (if getNumber args ''commits_back'' = 0 then 10
                                  else getNumber args ''commits_back'') = Inr oldCommit
         \<and> CommitObject r ref = Inr headCommit
         \<and> Tree r oldCommit = Inr oldTree \<and> Tree r headCommit = Inr headTree
         \<and> Patch r oldTree headTree = Inr patch))
   \<and> (\<not> IsError (fst (gitFileHistory PlainOpen env args)) \<longrightarrow>
        getString args ''file_path'' \<noteq> []
        \<and> (\<exists>r ref it. getRepository PlainOpen env = Inr r \<and> Head r = Inr ref \<and> Log r ref = Inr it
             \<and> failure it = None \<and> (\<forall>pc \<in> set (walkPairs (items it)). stepOk r pc)))"
proof -
  have logc: "\<not> IsError (fst (gitLog PlainOpen env args)) \<longrightarrow>
        (\<exists>r ref it. getRepository PlainOpen env = Inr r \<and> Head r = Inr ref \<and> Log r ref = Inr it
           \<and> (failure it = None \<or> nat (logLimit args) < length (items it)))"
  proof
    assume "\<not> IsError (fst (gitLog PlainOpen env args))"
    then obtain r ref it where w: "getRepository PlainOpen env = Inr r" "Head r = Inr ref"
        "Log r ref = Inr it"
      and d: "failure it = None \<or> failure it = Some ''reached limit''
                \<or> nat (logLimit args) < length (items it)"
      using gitLog_in_band by blast
    from w assms have "failure it \<noteq> Some ''reached limit''" by blast
    with w d show "\<exists>r ref it. getRepository PlainOpen env = Inr r \<and> Head r = Inr ref
           \<and> Log r ref = Inr it
           \<and> (failure it = None \<or> nat (logLimit args) < length (items it))"
      by blast
  qed
  show ?thesis
    by (intro conjI gitLog_nil gitChangedFiles_nil gitFileDiff_nil gitFileHistory_nil logc
          impI [OF gitChangedFiles_in_band] impI [OF gitFileDiff_in_band]
          impI [OF gitFileHistory_in_band])
qed

lemma scenario_log_ok:
  "\<not> IsError (fst (gitLog (scenarioDisk readme) scenarioEnv args))"
  by (simp add: gitLog_def Let_def scenario_repo scenario_head scenario_log ForEach_logCallback
        IsError_results del: ForEach.simps)

lemma scenario_history_ok:
  "\<not> IsError (fst (gitFileHistory (scenarioDisk readme) scenarioEnv (args(''file_path'' \<mapsto> GoString (p # ps)))))"
  by (simp add: scenario_history IsError_results del: diffSection.simps)

lemma scenario_one_back:
  "getCommitFromHead (scenarioRepo extra) 1 = Inr commit1"
  by (rule getCommitFromHead_nthAncestor [OF scenario_head scenario_commits(1)])
     (simp add: scenario_commits scenario_parents)

lemma scenario_changed_ok:
  "\<not> IsError (fst (gitChangedFiles (scenarioDisk readme) scenarioEnv
        (args(''commits_back'' \<mapsto> Float64 1))))"
  by (simp add: gitChangedFiles_def getNumber_def int_of_float64_def truncFloat_def scenario_one_back
        scenario_repo scenario_head scenario_commits scenario_trees scenario_patch IsError_results)

lemma scenario_diff_ok:
  "\<not> IsError (fst (gitFileDiff (scenarioDisk readme) scenarioEnv
        [''file_path'' \<mapsto> GoString ''a.txt'', ''commits_back'' \<mapsto> Float64 1]))"
  by (simp add: gitFileDiff_def getNumber_def getString_def int_of_float64_def truncFloat_def scenario_one_back
        scenario_repo scenario_head scenario_commits scenario_trees scenario_patch treeDiff_12
        touches_def IsError_results)

lemma moved_repo: "getRepository (scenarioDisk extra) movedEnv = Inl ''repository does not exist''"
  by (simp add: getRepository_def repositoryDir_def Getenv_def movedEnv_def scenarioDisk_def)

lemma brokenWalk_facts:
  "getRepository (brokenWalkDisk e) env = Inr (brokenWalkRepo e)"
  "Head (brokenWalkRepo e) = Inr ''c2''"
  "Log (brokenWalkRepo e) ref = Inr \<lparr>items = [commit2], failure = Some e\<rparr>"
  by (simp_all add: getRepository_def brokenWalkDisk_def brokenWalkRepo_def scenarioRepo_def)

theorem handlers_report_in_band_witness:
  "getRepository (scenarioDisk readme) scenarioEnv = Inr (scenarioRepo readme)
   \<and> Head (scenarioRepo readme) = Inr ''c2''
   \<and> Log (scenarioRepo readme) ''c2'' = Inr \<lparr>items = [commit2, commit1, commit0], failure = None\<rparr>
   \<and> \<not> IsError (fst (gitLog (scenarioDisk readme) scenarioEnv
        [''file_path'' \<mapsto> GoString ''a.txt'', ''commits_back'' \<mapsto> Float64 1]))
   \<and> \<not> IsError (fst (gitChangedFiles (scenarioDisk readme) scenarioEnv
        [''file_path'' \<mapsto> GoString ''a.txt'', ''commits_back'' \<mapsto> Float64 1]))
   \<and> \<not> IsError (fst (gitFileDiff (scenarioDisk readme) scenarioEnv
        [''file_path'' \<mapsto> GoString ''a.txt'', ''commits_back'' \<mapsto> Float64 1]))
   \<and> \<not> IsError (fst (gitFileHistory (scenarioDisk readme) scenarioEnv
        [''file_path'' \<mapsto> GoString ''a.txt'', ''commits_back'' \<mapsto> Float64 1]))
   \<and> snd (gitLog (scenarioDisk readme) scenarioEnv
        [''file_path'' \<mapsto> GoString ''a.txt'', ''commits_back'' \<mapsto> Float64 1]) = None
   \<and> (\<exists>r ref it. getRepository (scenarioDisk readme) scenarioEnv = Inr r \<and> Head r = Inr ref
         \<and> Log r ref = Inr it \<and> failure it = None)
   \<and> getRepository (scenarioDisk readme) movedEnv = Inl ''repository does not exist''
   \<and> IsError (fst (gitLog (scenarioDisk readme) movedEnv Map.empty))
   \<and> IsError (fst (gitChangedFiles (scenarioDisk readme) movedEnv Map.empty))
   \<and> IsError (fst (gitFileDiff (scenarioDisk readme) movedEnv Map.empty))
   \<and> IsError (fst (gitFileHistory (scenarioDisk readme) movedEnv Map.empty))
   \<and> Log (brokenWalkRepo ''object not found'') ''c2''
       = Inr \<lparr>items = [commit2], failure = Some ''object not found''\<rparr>
   \<and> IsError (fst (gitLog (brokenWalkDisk ''object not found'') scenarioEnv Map.empty))"
proof -
  let ?args = "[''file_path'' \<mapsto> GoString ''a.txt'', ''commits_back'' \<mapsto> Float64 1]"
  have hs: "\<forall>r ref it. getRepository (scenarioDisk readme) scenarioEnv = Inr r \<and> Head r = Inr ref
              \<and> Log r ref = Inr it \<longrightarrow> failure it \<noteq> Some ''reached limit''"
    by (auto simp: scenario_repo scenario_head scenario_log)
  have hm: "\<forall>r ref it. getRepository (scenarioDisk readme) movedEnv = Inr r \<and> Head r = Inr ref
              \<and> Log r ref = Inr it \<longrightarrow> failure it \<noteq> Some ''reached limit''"
    by (simp add: moved_repo)
  have hb: "\<forall>r ref it. getRepository (brokenWalkDisk ''object not found'') scenarioEnv = Inr r
              \<and> Head r = Inr ref \<and> Log r ref = Inr it \<longrightarrow> failure it \<noteq> Some ''reached limit''"
    by (auto simp: brokenWalk_facts)
  note ok = handlers_report_in_band [OF hs, of ?args]
  note bad = handlers_report_in_band [OF hm, of Map.empty]
  note broken = handlers_report_in_band [OF hb, of Map.empty]
  have 1: "\<not> IsError (fst (gitLog (scenarioDisk readme) scenarioEnv ?args))"
    by (rule scenario_log_ok)
  have 2: "\<not> IsError (fst (gitChangedFiles (scenarioDisk readme) scenarioEnv ?args))"
    by (rule scenario_changed_ok)
  have 3: "\<not> IsError (fst (gitFileDiff (scenarioDisk readme) scenarioEnv ?args))"
    by (rule scenario_diff_ok)
  have 4: "\<not> IsError (fst (gitFileHistory (scenarioDisk readme) scenarioEnv ?args))"
    using scenario_history_ok [of "[''commits_back'' \<mapsto> Float64 1]" "CHR ''a''" "''.txt''"]
    by (simp add: fun_upd_twist)
  have 5: "snd (gitLog (scenarioDisk readme) scenarioEnv ?args) = None"
    using ok by blast
  have 6: "\<exists>r ref it. getRepository (scenarioDisk readme) scenarioEnv = Inr r \<and> Head r = Inr ref
         \<and> Log r ref = Inr it \<and> failure it = None"
    using ok 4 by blast
  have 7: "IsError (fst (gitLog (scenarioDisk readme) movedEnv Map.empty))"
    using bad moved_repo [of readme] by auto
  have 8: "IsError (fst (gitChangedFiles (scenarioDisk readme) movedEnv Map.empty))"
    using bad moved_repo [of readme] by auto
  have 9: "IsError (fst (gitFileDiff (scenarioDisk readme) movedEnv Map.empty))"
    using bad moved_repo [of readme] by auto
  have 10: "IsError (fst (gitFileHistory (scenarioDisk readme) movedEnv Map.empty))"
    using bad moved_repo [of readme] by auto
  have l10: "nat (logLimit Map.empty) = 10"
    by (simp add: logLimit_def)
  have 11: "IsError (fst (gitLog (brokenWalkDisk ''object not found'') scenarioEnv Map.empty))"
  proof (rule ccontr)
    assume "\<not> IsError (fst (gitLog (brokenWalkDisk ''object not found'') scenarioEnv Map.empty))"
    with broken obtain r ref it where
      "getRepository (brokenWalkDisk ''object not found'') scenarioEnv = Inr r"
      "Head r = Inr ref" "Log r ref = Inr it"
      "failure it = None \<or> nat (logLimit Map.empty) < length (items it)"
      by blast
    then show False by (auto simp: brokenWalk_facts l10)
  qed
  from 1 2 3 4 5 6 7 8 9 10 11 moved_repo [of readme] scenario_repo [of readme]
    scenario_head [of readme] scenario_log [of readme] brokenWalk_facts(3) [of "''object not found''" "''c2''"]
  show ?thesis by blast
qed

end
